theory Spec2Isabelle
  imports Complex_Main
begin

section \<open>Common data\<close>

text \<open>
  Python strings are modelled as \<^typ>\<open>string\<close> holding the UTF-8 bytes of the text.
  A substring test on UTF-8 bytes agrees with the test on code points, because UTF-8 is
  self-synchronising. An exception raised by a collaborator that is not part of the two
  handlers (link detection, web extraction, intent recognition, classifiers, responders)
  is the value \<open>Inl ExternalError\<close>.
\<close>

datatype error = ExternalError

text \<open>Python's \<^verbatim>\<open>sub in s\<close> on strings.\<close>

fun starts_with :: "string \<Rightarrow> string \<Rightarrow> bool" where
  "starts_with [] s = True"
| "starts_with (p # ps) [] = False"
| "starts_with (p # ps) (c # cs) = (p = c \<and> starts_with ps cs)"

fun contains :: "string \<Rightarrow> string \<Rightarrow> bool" where
  "contains sub [] = (sub = [])"
| "contains sub (c # cs) = (starts_with sub (c # cs) \<or> contains sub cs)"

text \<open>Python's \<^verbatim>\<open>sep.join(xs)\<close>.\<close>

fun join :: "string \<Rightarrow> string list \<Rightarrow> string" where
  "join sep [] = []"
| "join sep [x] = x"
| "join sep (x # y # ys) = x @ sep @ join sep (y # ys)"

text \<open>
  \<^verbatim>\<open>str.lower()\<close> on the ASCII letters. No character outside ASCII lower-cases to one
  of the letters of \<^verbatim>\<open>system\<close>, so the comparison with \<^verbatim>\<open>"system"\<close> below is not
  affected by the restriction.
\<close>

definition lower_char :: "char \<Rightarrow> char" where
  "lower_char c =
     (case map_of (zip ''ABCDEFGHIJKLMNOPQRSTUVWXYZ'' ''abcdefghijklmnopqrstuvwxyz'') c of
        None \<Rightarrow> c
      | Some l \<Rightarrow> l)"

definition lower :: "string \<Rightarrow> string" where
  "lower s = map lower_char s"

section \<open>Message handler: src/src/handlers/message.py\<close>

subsection \<open>Conversation key\<close>

text \<open>\<^verbatim>\<open>MessageHandler._get_queue_key\<close>, line 130.\<close>

definition get_queue_key :: "string \<Rightarrow> string \<Rightarrow> bool \<Rightarrow> string" where
  "get_queue_key cid sname grp = (if grp then cid @ ''_'' @ sname else cid)"

subsection \<open>Queue store\<close>

text \<open>
  The dictionary stored per key in \<^verbatim>\<open>message_queues\<close> (line 315). \<^verbatim>\<open>last_update\<close> is a
  reading of \<^verbatim>\<open>time.time()\<close>, in seconds.
\<close>

record queue_data =
  messages :: "string list"
  chat_id :: string
  sender_name :: string
  username :: string
  is_group :: bool
  is_image_recognition :: bool
  last_update :: real
  has_link :: bool
  urls :: "string list"

text \<open>
  The state of a \<^verbatim>\<open>MessageHandler\<close> that the queue code reads and writes. A
  \<^verbatim>\<open>threading.Timer\<close> object is a handle \<^typ>\<open>nat\<close>, fresh from \<open>timer_seq\<close>;
  \<open>live_timers\<close> holds the handles that were started and not cancelled.
\<close>

record handler_state =
  message_queues :: "string \<rightharpoonup> queue_data"
  queue_timers :: "string \<rightharpoonup> nat"
  live_timers :: "nat set"
  timer_seq :: nat

text \<open>Lines 60 and 61 of \<^verbatim>\<open>__init__\<close>: no queue and no timer.\<close>

definition empty_handler :: handler_state where
  "empty_handler =
     \<lparr>message_queues = Map.empty, queue_timers = Map.empty, live_timers = {}, timer_seq = 0\<rparr>"

datatype responder = Voice | RandomImage | Text

text \<open>
  Configuration and collaborators of the handler. \<open>extract_web_content\<close> and
  \<open>search_internet\<close> return the \<^verbatim>\<open>'original'\<close> text of their result, \<open>None\<close> for a
  result that is \<^verbatim>\<open>None\<close> or empty. \<open>recognize_time_and_search\<close> takes the message, the
  user name and the avatar name and returns \<^verbatim>\<open>search_required\<close> and \<^verbatim>\<open>search_query\<close>.
  \<open>respond\<close> stands for \<^verbatim>\<open>_handle_voice_request\<close>, \<^verbatim>\<open>_handle_random_image_request\<close> and
  \<^verbatim>\<open>_handle_text_message\<close>, called with content, chat id, sender name, username and
  group flag. \<open>debug_intercepts\<close> stands for the debug command handler of lines 245 to
  277: true when the content is a debug command that the handler answers itself.
\<close>

record handler_env =
  QUEUE_TIMEOUT :: real
  WEBLENS_ENABLED :: bool
  NETWORK_SEARCH_ENABLED :: bool
  current_avatar :: string
  detect_urls :: "string \<Rightarrow> error + string list"
  extract_web_content :: "string \<Rightarrow> error + string option"
  recognize_time_and_search :: "string \<Rightarrow> string \<Rightarrow> string \<Rightarrow> error + bool \<times> string"
  search_internet :: "string \<Rightarrow> error + string option"
  is_voice_request :: "string \<Rightarrow> error + bool"
  is_random_image_request :: "string \<Rightarrow> bool"
  respond :: "responder \<Rightarrow> string \<Rightarrow> string \<Rightarrow> string \<Rightarrow> string \<Rightarrow> bool \<Rightarrow> error + string option"
  debug_intercepts :: "string \<Rightarrow> error + bool"

subsection \<open>Enqueue\<close>

text \<open>
  \<^verbatim>\<open>MessageHandler._add_to_message_queue\<close>, lines 287 to 362. \<open>now_str\<close> is the
  formatted \<^verbatim>\<open>datetime.now()\<close> of line 304 and \<open>now\<close> the \<^verbatim>\<open>time.time()\<close> of lines 322
  and 330. Link detection (\<open>detect_links\<close>, lines 296 to 301) runs before the lock is
  taken and only when \<^verbatim>\<open>WEBLENS_ENABLED\<close>; when it raises, nothing has been written yet.
\<close>

definition detect_links :: "handler_env \<Rightarrow> string \<Rightarrow> error + string list" where
  "detect_links env content = (if WEBLENS_ENABLED env then detect_urls env content else Inr [])"

definition add_to_message_queue ::
  "handler_env \<Rightarrow> string \<Rightarrow> real \<Rightarrow> string \<Rightarrow> string \<Rightarrow> string \<Rightarrow> string \<Rightarrow> bool \<Rightarrow> bool \<Rightarrow>
   handler_state \<Rightarrow> error + handler_state" where
  "add_to_message_queue env now_str now content cid sname uname grp img st =
     (case detect_links env content of
        Inl e \<Rightarrow> Inl e
      | Inr found \<Rightarrow>
          (let has = (found \<noteq> []);
               queue_key = get_queue_key cid sname grp;
               queues =
                 (case message_queues st queue_key of
                    None \<Rightarrow>
                      (message_queues st)(queue_key \<mapsto>
                        \<lparr>messages = [''['' @ now_str @ '']'' @ [CHR 0x0A] @ content],
                         chat_id = cid, sender_name = sname, username = uname,
                         is_group = grp, is_image_recognition = img,
                         last_update = now, has_link = has,
                         urls = (if has then found else [])\<rparr>)
                  | Some q \<Rightarrow>
                      (message_queues st)(queue_key \<mapsto>
                        q\<lparr>messages := messages q @ [content],
                          last_update := now,
                          has_link := (has \<or> has_link q),
                          urls := (case found of [] \<Rightarrow> urls q | u # _ \<Rightarrow> urls q @ [u])\<rparr>));
               live =
                 (case queue_timers st queue_key of
                    None \<Rightarrow> live_timers st
                  | Some t \<Rightarrow> live_timers st - {t});
               timer = timer_seq st
           in Inr (st\<lparr>message_queues := queues,
                      queue_timers := (queue_timers st)(queue_key \<mapsto> timer),
                      live_timers := insert timer live,
                      timer_seq := Suc timer\<rparr>)))"

text \<open>\<^verbatim>\<open>MessageHandler.add_to_queue\<close>, line 1175.\<close>

definition add_to_queue ::
  "handler_env \<Rightarrow> string \<Rightarrow> real \<Rightarrow> string \<Rightarrow> string \<Rightarrow> string \<Rightarrow> string \<Rightarrow> bool \<Rightarrow>
   handler_state \<Rightarrow> error + handler_state" where
  "add_to_queue env now_str now cid content sname uname grp st =
     add_to_message_queue env now_str now content cid sname uname grp False st"

text \<open>One inbound message with the clock readings taken while it is enqueued.\<close>

record inbound =
  in_content :: string
  in_chat_id :: string
  in_sender_name :: string
  in_username :: string
  in_is_group :: bool
  in_is_image_recognition :: bool
  at_str :: string
  at_time :: real

definition enqueue :: "handler_env \<Rightarrow> inbound \<Rightarrow> handler_state \<Rightarrow> error + handler_state" where
  "enqueue env m st =
     add_to_message_queue env (at_str m) (at_time m) (in_content m) (in_chat_id m)
       (in_sender_name m) (in_username m) (in_is_group m) (in_is_image_recognition m) st"

definition key_of :: "inbound \<Rightarrow> string" where
  "key_of m = get_queue_key (in_chat_id m) (in_sender_name m) (in_is_group m)"

text \<open>Successive calls of \<^verbatim>\<open>_add_to_message_queue\<close>, stopping at the first that raises.\<close>

fun enqueue_all :: "handler_env \<Rightarrow> inbound list \<Rightarrow> handler_state \<Rightarrow> error + handler_state" where
  "enqueue_all env [] st = Inr st"
| "enqueue_all env (m # ms) st =
     (case enqueue env m st of Inl e \<Rightarrow> Inl e | Inr st' \<Rightarrow> enqueue_all env ms st')"

text \<open>The first entry of a queue, as line 316 builds it.\<close>

definition prefixed :: "inbound \<Rightarrow> string" where
  "prefixed m = ''['' @ at_str m @ '']'' @ [CHR 0x0A] @ in_content m"

text \<open>
  The store after some messages were enqueued (unchanged when one of them raised), the
  queue of a key in it, and the number of messages a store buffers for a key.
\<close>

definition store_after :: "handler_env \<Rightarrow> inbound list \<Rightarrow> handler_state \<Rightarrow> handler_state" where
  "store_after env ms st = (case enqueue_all env ms st of Inl e \<Rightarrow> st | Inr st' \<Rightarrow> st')"

definition queue_after ::
  "handler_env \<Rightarrow> inbound list \<Rightarrow> handler_state \<Rightarrow> string \<Rightarrow> queue_data option" where
  "queue_after env ms st k =
     (case enqueue_all env ms st of Inl e \<Rightarrow> None | Inr st' \<Rightarrow> message_queues st' k)"

definition queued_count :: "handler_state \<Rightarrow> string \<Rightarrow> nat" where
  "queued_count st k = (case message_queues st k of None \<Rightarrow> 0 | Some q \<Rightarrow> length (messages q))"

subsection \<open>Flush\<close>

text \<open>
  What one call of \<^verbatim>\<open>_process_message_queue\<close> does that another thread or a collaborator
  can observe, in program order: taking and releasing \<^verbatim>\<open>queue_lock\<close>, the pop of a
  queue, and each call of a collaborator with its argument.
\<close>

datatype event =
    LockAcquire
  | LockRelease
  | QueuePop string
  | ExtractWebContent string
  | RecognizeTimeAndSearch string
  | SearchInternet string
  | IsVoiceRequest string
  | IsRandomImageRequest string
  | Dispatch responder string string string string bool

type_synonym 'a io = "(error + 'a) \<times> event list"

definition done_io :: "'a \<Rightarrow> 'a io" where
  "done_io x = (Inr x, [])"

definition call :: "event \<Rightarrow> error + 'a \<Rightarrow> 'a io" where
  "call ev r = (r, [ev])"

text \<open>Sequencing: an exception skips the rest of the \<^verbatim>\<open>try\<close> body.\<close>

definition and_then :: "'a io \<Rightarrow> ('a \<Rightarrow> 'b io) \<Rightarrow> 'b io" where
  "and_then m f =
     (case m of
        (Inl e, evs) \<Rightarrow> (Inl e, evs)
      | (Inr x, evs) \<Rightarrow> (case f x of (r, evs') \<Rightarrow> (r, evs @ evs')))"

text \<open>The literal of line 1039, in UTF-8.\<close>

definition search_marker :: string where
  "search_marker = [
   CHR 0xE5, CHR 0x8F, CHR 0xAF, CHR 0xE4, CHR 0xBD, CHR 0x9C, CHR 0xE4, CHR 0xB8, CHR 0xBA,
   CHR 0xE4, CHR 0xBD, CHR 0xA0, CHR 0xE7, CHR 0x9A, CHR 0x84, CHR 0xE5, CHR 0x9B, CHR 0x9E,
   CHR 0xE5, CHR 0xA4, CHR 0x8D, CHR 0xE5, CHR 0x8F, CHR 0x82, CHR 0xE8, CHR 0x80, CHR 0x83]"

text \<open>
  \<^verbatim>\<open>MessageHandler._check_time_reminder_and_search\<close>, lines 1021 to 1139. After the test
  of line 1039 the body is a string literal (lines 1042 to 1135), so the function falls
  off its end and returns \<^verbatim>\<open>None\<close>, which the caller reads as false.
\<close>

definition check_time_reminder_and_search :: "string \<Rightarrow> string \<Rightarrow> bool" where
  "check_time_reminder_and_search content sname =
     (if sname = ''System'' \<or> lower sname = ''system'' then False
      else if contains search_marker content then True
      else False)"

text \<open>
  Lines 368 to 386: the two early returns and the pop. \<open>current_time\<close> is the
  \<^verbatim>\<open>time.time()\<close> of line 374. Times are real numbers here; the source computes with
  floats, whose \<^verbatim>\<open>0.1\<close> is the double nearest to one tenth.
\<close>

definition flush_trigger ::
  "handler_env \<Rightarrow> real \<Rightarrow> string \<Rightarrow> handler_state \<Rightarrow> queue_data option \<times> handler_state" where
  "flush_trigger env current_time queue_key st =
     (case message_queues st queue_key of
        None \<Rightarrow> (None, st)
      | Some queue \<Rightarrow>
          if current_time - last_update queue < QUEUE_TIMEOUT env - 1 / 10 then (None, st)
          else (Some queue,
                st\<lparr>message_queues := (message_queues st)(queue_key := None),
                   queue_timers := (queue_timers st)(queue_key := None)\<rparr>))"

text \<open>
  The condition under which \<open>flush_trigger\<close> is claimed to pop: an entry exists and the
  time since its last update is at least the timeout minus the tolerance. \<open>popped_store\<close>
  is the store without the entry and the timer handle of the key.
\<close>

definition flush_due :: "handler_env \<Rightarrow> real \<Rightarrow> string \<Rightarrow> handler_state \<Rightarrow> bool" where
  "flush_due env now key st =
     (case message_queues st key of
        None \<Rightarrow> False
      | Some q \<Rightarrow> QUEUE_TIMEOUT env - 1 / 10 \<le> now - last_update q)"

definition popped_store :: "string \<Rightarrow> handler_state \<Rightarrow> handler_state" where
  "popped_store key st =
     st\<lparr>message_queues := (message_queues st)(key := None),
        queue_timers := (queue_timers st)(key := None)\<rparr>"

text \<open>Line 396.\<close>

definition combined_message :: "queue_data \<Rightarrow> string" where
  "combined_message queue = join [CHR 0x0A] (messages queue)"

text \<open>Lines 418 to 429: the content of the first stored link is appended.\<close>

definition link_step :: "handler_env \<Rightarrow> queue_data \<Rightarrow> string io" where
  "link_step env queue =
     (if has_link queue \<and> WEBLENS_ENABLED env then
        (case urls queue of
           [] \<Rightarrow> done_io (combined_message queue)
         | u # _ \<Rightarrow>
             and_then (call (ExtractWebContent u) (extract_web_content env u))
               (\<lambda>web_results.
                  case web_results of
                    None \<Rightarrow> done_io (combined_message queue)
                  | Some original \<Rightarrow>
                      if original \<noteq> [] then
                        done_io (combined_message queue @ [CHR 0x0A, CHR 0x0A] @ original)
                      else done_io (combined_message queue)))
      else done_io (combined_message queue))"

text \<open>Lines 439 to 469: the search result replaces what the link step appended.\<close>

definition search_step :: "handler_env \<Rightarrow> queue_data \<Rightarrow> string \<Rightarrow> string io" where
  "search_step env queue processed_message =
     (if NETWORK_SEARCH_ENABLED env then
        and_then
          (call (RecognizeTimeAndSearch (combined_message queue))
             (recognize_time_and_search env (combined_message queue) (sender_name queue)
                (current_avatar env)))
          (\<lambda>(search_required, search_query).
             if search_required \<and> search_query \<noteq> [] then
               and_then (call (SearchInternet search_query) (search_internet env search_query))
                 (\<lambda>search_results.
                    case search_results of
                      None \<Rightarrow> done_io processed_message
                    | Some original \<Rightarrow>
                        if original \<noteq> [] then
                          done_io (combined_message queue @ [CHR 0x0A, CHR 0x0A] @ original)
                        else done_io processed_message)
             else done_io processed_message)
      else done_io processed_message)"

definition dispatch :: "handler_env \<Rightarrow> responder \<Rightarrow> string \<Rightarrow> queue_data \<Rightarrow> string option io" where
  "dispatch env r content queue =
     call (Dispatch r content (chat_id queue) (sender_name queue) (username queue) (is_group queue))
       (respond env r content (chat_id queue) (sender_name queue) (username queue)
          (is_group queue))"

text \<open>Lines 473 to 480.\<close>

definition classify_and_dispatch :: "handler_env \<Rightarrow> queue_data \<Rightarrow> string \<Rightarrow> string option io" where
  "classify_and_dispatch env queue processed_message =
     and_then (call (IsVoiceRequest processed_message) (is_voice_request env processed_message))
       (\<lambda>voice.
          if voice then dispatch env Voice processed_message queue
          else
            and_then
              (call (IsRandomImageRequest processed_message)
                 (Inr (is_random_image_request env processed_message)))
              (\<lambda>image.
                 if image then dispatch env RandomImage processed_message queue
                 else dispatch env Text processed_message queue))"

text \<open>Lines 388 to 480, for the queue that was popped.\<close>

definition flush_process :: "handler_env \<Rightarrow> queue_data \<Rightarrow> string option io" where
  "flush_process env queue =
     and_then (link_step env queue)
       (\<lambda>processed_message.
          if check_time_reminder_and_search processed_message (sender_name queue) then
            dispatch env Text processed_message queue
          else
            and_then (search_step env queue processed_message)
              (classify_and_dispatch env queue))"

text \<open>\<^verbatim>\<open>with self.queue_lock:\<close> around a block.\<close>

definition with_queue_lock :: "event list \<Rightarrow> event list" where
  "with_queue_lock body = LockAcquire # body @ [LockRelease]"

text \<open>
  \<^verbatim>\<open>MessageHandler._process_message_queue\<close>, lines 364 to 484. The \<^verbatim>\<open>with\<close> block of line
  368 encloses lines 369 to 480. The result is the value returned, the handler state and
  the events; an exception is caught at line 482 and \<^verbatim>\<open>None\<close> is returned.
\<close>

definition process_message_queue ::
  "handler_env \<Rightarrow> real \<Rightarrow> string \<Rightarrow> handler_state \<Rightarrow> string option \<times> handler_state \<times> event list" where
  "process_message_queue env current_time queue_key st =
     (case flush_trigger env current_time queue_key st of
        (None, st') \<Rightarrow> (None, st', with_queue_lock [])
      | (Some queue, st') \<Rightarrow>
          (case flush_process env queue of
             (Inl e, evs) \<Rightarrow> (None, st', with_queue_lock (QueuePop queue_key # evs))
           | (Inr reply, evs) \<Rightarrow> (reply, st', with_queue_lock (QueuePop queue_key # evs))))"

text \<open>
  What \<^verbatim>\<open>_process_message_queue\<close> returns after the processing of a popped queue: the
  reply of the responder, \<^verbatim>\<open>None\<close> when an exception was caught.
\<close>

definition returned :: "string option io \<Rightarrow> string option" where
  "returned r = (case fst r of Inl e \<Rightarrow> None | Inr reply \<Rightarrow> reply)"

text \<open>Reading a trace: which calls leave the process, and whether one is made under the lock.\<close>

fun is_external :: "event \<Rightarrow> bool" where
  "is_external (ExtractWebContent u) = True"
| "is_external (RecognizeTimeAndSearch m) = True"
| "is_external (SearchInternet q) = True"
| "is_external (IsVoiceRequest m) = True"
| "is_external (Dispatch r m c s u g) = True"
| "is_external ev = False"

fun external_under_lock :: "bool \<Rightarrow> event list \<Rightarrow> bool" where
  "external_under_lock held [] = False"
| "external_under_lock held (LockAcquire # evs) = external_under_lock True evs"
| "external_under_lock held (LockRelease # evs) = external_under_lock False evs"
| "external_under_lock held (ev # evs) =
     ((held \<and> is_external ev) \<or> external_under_lock held evs)"

fun events_outside_lock :: "bool \<Rightarrow> event list \<Rightarrow> event list" where
  "events_outside_lock held [] = []"
| "events_outside_lock held (LockAcquire # evs) = events_outside_lock True evs"
| "events_outside_lock held (LockRelease # evs) = events_outside_lock False evs"
| "events_outside_lock held (ev # evs) =
     (if held then events_outside_lock held evs else ev # events_outside_lock held evs)"

fun dispatches :: "event list \<Rightarrow> event list" where
  "dispatches [] = []"
| "dispatches (Dispatch r m c s u g # evs) = Dispatch r m c s u g # dispatches evs"
| "dispatches (ev # evs) = dispatches evs"

text \<open>An event that is neither a lock operation nor a call of a responder.\<close>

definition plain :: "event \<Rightarrow> bool" where
  "plain ev = (ev \<noteq> LockAcquire \<and> ev \<noteq> LockRelease \<and> dispatches [ev] = [])"

subsection \<open>Message entry\<close>

text \<open>
  \<^verbatim>\<open>MessageHandler.handle_user_message\<close>, lines 233 to 285: a debug command that is
  intercepted is not queued; every exception is caught and logged.
\<close>

definition handle_user_message ::
  "handler_env \<Rightarrow> string \<Rightarrow> real \<Rightarrow> string \<Rightarrow> string \<Rightarrow> string \<Rightarrow> string \<Rightarrow> bool \<Rightarrow> bool \<Rightarrow>
   handler_state \<Rightarrow> handler_state" where
  "handle_user_message env now_str now content cid sname uname grp img st =
     (case debug_intercepts env content of
        Inl e \<Rightarrow> st
      | Inr True \<Rightarrow> st
      | Inr False \<Rightarrow>
          (case add_to_message_queue env now_str now content cid sname uname grp img st of
             Inl e \<Rightarrow> st
           | Inr st' \<Rightarrow> st'))"

section \<open>Idle scheduler: src/src/handlers/autosend.py\<close>

subsection \<open>Wall-clock times\<close>

text \<open>A \<^verbatim>\<open>datetime.time\<close>; Python orders two of them by hour, minute, second, microsecond.\<close>

record time_of_day =
  hour :: nat
  minute :: nat
  second :: nat
  microsecond :: nat

definition time_le :: "time_of_day \<Rightarrow> time_of_day \<Rightarrow> bool" where
  "time_le a b =
     (hour a < hour b \<or>
      (hour a = hour b \<and>
       (minute a < minute b \<or>
        (minute a = minute b \<and>
         (second a < second b \<or>
          (second a = second b \<and> microsecond a \<le> microsecond b))))))"

definition time_lt :: "time_of_day \<Rightarrow> time_of_day \<Rightarrow> bool" where
  "time_lt a b = (time_le a b \<and> \<not> time_le b a)"

text \<open>
  \<^verbatim>\<open>datetime.strptime(s, "%H:%M").time()\<close> of the Python standard library, on ASCII
  digits: the hour matches \<^verbatim>\<open>2[0-3]|[0-1]\d|\d\<close>, the minute \<^verbatim>\<open>[0-5]\d|\d\<close>, and the
  whole string must be consumed. \<open>None\<close> stands for the \<^verbatim>\<open>ValueError\<close> it raises.
\<close>

definition is_digit :: "char \<Rightarrow> bool" where
  "is_digit c = (48 \<le> (of_char c :: nat) \<and> (of_char c :: nat) \<le> 57)"

definition digit_value :: "char \<Rightarrow> nat" where
  "digit_value c = of_char c - 48"

definition parse_H :: "string \<Rightarrow> nat option" where
  "parse_H s =
     (case s of
        [d] \<Rightarrow> if is_digit d then Some (digit_value d) else None
      | [d1, d2] \<Rightarrow>
          if (d1 = CHR ''2'' \<and> is_digit d2 \<and> digit_value d2 \<le> 3) \<or>
             ((d1 = CHR ''0'' \<or> d1 = CHR ''1'') \<and> is_digit d2)
          then Some (10 * digit_value d1 + digit_value d2) else None
      | _ \<Rightarrow> None)"

definition parse_M :: "string \<Rightarrow> nat option" where
  "parse_M s =
     (case s of
        [d] \<Rightarrow> if is_digit d then Some (digit_value d) else None
      | [d1, d2] \<Rightarrow>
          if is_digit d1 \<and> digit_value d1 \<le> 5 \<and> is_digit d2
          then Some (10 * digit_value d1 + digit_value d2) else None
      | _ \<Rightarrow> None)"

definition strptime_HM :: "string \<Rightarrow> time_of_day option" where
  "strptime_HM s =
     (case dropWhile (\<lambda>c. c \<noteq> CHR '':'') s of
        [] \<Rightarrow> None
      | colon # m \<Rightarrow>
          (case parse_H (takeWhile (\<lambda>c. c \<noteq> CHR '':'') s) of
             None \<Rightarrow> None
           | Some hh \<Rightarrow>
               (case parse_M m of
                  None \<Rightarrow> None
                | Some mm \<Rightarrow> Some \<lparr>hour = hh, minute = mm, second = 0, microsecond = 0\<rparr>)))"

subsection \<open>State and configuration\<close>

text \<open>
  The fields of an \<^verbatim>\<open>AutoSendHandler\<close> (lines 17 to 27). A \<^verbatim>\<open>datetime\<close> is a real number
  of seconds. The countdown's \<^verbatim>\<open>threading.Timer\<close> is a handle fresh from
  \<open>countdown_seq\<close>; \<open>live_countdowns\<close> holds the handles started and not cancelled.
\<close>

record auto_state =
  countdown_timer :: "nat option"
  is_countdown_running :: bool
  countdown_end_time :: "real option"
  unanswered_count :: int
  last_chat_time :: "real option"
  live_countdowns :: "nat set"
  countdown_seq :: nat

definition initial_auto :: auto_state where
  "initial_auto =
     \<lparr>countdown_timer = None, is_countdown_running = False, countdown_end_time = None,
      unanswered_count = 0, last_chat_time = None, live_countdowns = {}, countdown_seq = 0\<rparr>"

text \<open>
  What the handler reads of \<^verbatim>\<open>config.behavior\<close> (\<^verbatim>\<open>quiet_time.start\<close>, \<^verbatim>\<open>quiet_time.end\<close>,
  \<^verbatim>\<open>auto_message.min_hours\<close>, \<^verbatim>\<open>auto_message.max_hours\<close>, \<^verbatim>\<open>auto_message.content\<close>) and
  its \<^verbatim>\<open>listen_list\<close>.
\<close>

record auto_config =
  quiet_time_start :: string
  quiet_time_end :: string
  min_hours :: real
  max_hours :: real
  auto_message_content :: string
  listen_list :: "string list"

text \<open>
  The clock and random readings taken during one call: \<open>wall_time\<close> is the
  \<^verbatim>\<open>datetime.now().time()\<close> of line 39, \<open>choice_index\<close> the index drawn by
  \<^verbatim>\<open>random.choice\<close> (below the length of its argument), \<open>enqueue_now_str\<close> and
  \<open>enqueue_now\<close> the readings of \<^verbatim>\<open>_add_to_message_queue\<close>, \<open>countdown_now\<close> the
  \<^verbatim>\<open>datetime.now()\<close> of line 121 and \<open>countdown_draw\<close> the \<^verbatim>\<open>random.random()\<close> behind
  \<^verbatim>\<open>random.uniform\<close>, in the interval from 0 to 1.
\<close>

record readings =
  wall_time :: time_of_day
  choice_index :: nat
  enqueue_now_str :: string
  enqueue_now :: real
  countdown_now :: real
  countdown_draw :: real

subsection \<open>Operations\<close>

text \<open>\<^verbatim>\<open>AutoSendHandler.update_last_chat_time\<close>, lines 29 to 33.\<close>

definition update_last_chat_time :: "real \<Rightarrow> auto_state \<Rightarrow> auto_state" where
  "update_last_chat_time now s = s\<lparr>last_chat_time := Some now, unanswered_count := 0\<rparr>"

text \<open>
  \<^verbatim>\<open>AutoSendHandler.is_quiet_time\<close>, lines 35 to 54. Any exception of the \<^verbatim>\<open>try\<close> body
  gives \<^verbatim>\<open>False\<close>.
\<close>

definition is_quiet_time :: "auto_config \<Rightarrow> time_of_day \<Rightarrow> bool" where
  "is_quiet_time cfg current_time =
     (case strptime_HM (quiet_time_start cfg) of
        None \<Rightarrow> False
      | Some quiet_start \<Rightarrow>
          (case strptime_HM (quiet_time_end cfg) of
             None \<Rightarrow> False
           | Some quiet_end \<Rightarrow>
               if time_le quiet_start quiet_end then
                 time_le quiet_start current_time \<and> time_le current_time quiet_end
               else time_le quiet_start current_time \<or> time_le current_time quiet_end))"

text \<open>Python's \<^verbatim>\<open>int(x)\<close> on a float: truncation towards zero.\<close>

definition py_int :: "real \<Rightarrow> int" where
  "py_int x = (if 0 \<le> x then \<lfloor>x\<rfloor> else \<lceil>x\<rceil>)"

text \<open>
  \<^verbatim>\<open>AutoSendHandler.get_random_countdown_time\<close>, lines 56 to 62;
  \<^verbatim>\<open>random.uniform(a, b)\<close> is \<^verbatim>\<open>a + (b - a) * random()\<close>.
\<close>

definition get_random_countdown_time :: "auto_config \<Rightarrow> real \<Rightarrow> real" where
  "get_random_countdown_time cfg draw =
     (let min_seconds = py_int (min_hours cfg * 3600);
          max_seconds = py_int (max_hours cfg * 3600)
      in of_int min_seconds + (of_int max_seconds - of_int min_seconds) * draw)"

text \<open>\<^verbatim>\<open>AutoSendHandler.start_countdown\<close>, lines 109 to 132.\<close>

definition start_countdown :: "auto_config \<Rightarrow> readings \<Rightarrow> auto_state \<Rightarrow> auto_state" where
  "start_countdown cfg rd s =
     (let live =
            (case countdown_timer s of
               None \<Rightarrow> live_countdowns s
             | Some t \<Rightarrow> live_countdowns s - {t});
          countdown_seconds = get_random_countdown_time cfg (countdown_draw rd);
          timer = countdown_seq s
      in s\<lparr>countdown_end_time := Some (countdown_now rd + countdown_seconds),
           countdown_timer := Some timer,
           live_countdowns := insert timer live,
           countdown_seq := Suc timer,
           is_countdown_running := True\<rparr>)"

text \<open>\<^verbatim>\<open>AutoSendHandler.stop\<close>, lines 134 to 140.\<close>

definition stop :: "auto_state \<Rightarrow> auto_state" where
  "stop s =
     (case countdown_timer s of
        None \<Rightarrow> s\<lparr>is_countdown_running := False\<rparr>
      | Some t \<Rightarrow>
          s\<lparr>live_countdowns := live_countdowns s - {t},
            countdown_timer := None,
            is_countdown_running := False\<rparr>)"

text \<open>The text after the template in the literal of line 85, in UTF-8.\<close>

definition standing_instruction :: string where
  "standing_instruction = [
   CHR 0xE8, CHR 0xBF, CHR 0x99, CHR 0xE6, CHR 0x98, CHR 0xAF, CHR 0xE5, CHR 0xAF, CHR 0xB9,
   CHR 0xE6, CHR 0x96, CHR 0xB9, CHR 0xE5, CHR 0x8F, CHR 0xAF, CHR 0xE8, CHR 0x83, CHR 0xBD,
   CHR 0xE5, CHR 0x9B, CHR 0xA0, CHR 0xE4, CHR 0xB8, CHR 0xBA, CHR 0xE5, CHR 0x9C, CHR 0xA8,
   CHR 0xE5, CHR 0xBF, CHR 0x99, CHR 0xE7, CHR 0xA2, CHR 0x8C, CHR 0xE6, CHR 0x88, CHR 0x96,
   CHR 0xE8, CHR 0x80, CHR 0x85, CHR 0xE6, CHR 0x9C, CHR 0x89, CHR 0xE8, CHR 0x87, CHR 0xAA,
   CHR 0xE5, CHR 0xB7, CHR 0xB1, CHR 0xE7, CHR 0x9A, CHR 0x84, CHR 0xE4, CHR 0xBA, CHR 0x8B,
   CHR 0xE6, CHR 0xB2, CHR 0xA1, CHR 0xE6, CHR 0x9C, CHR 0x89, CHR 0xE5, CHR 0x9B, CHR 0x9E,
   CHR 0xE5, CHR 0xA4, CHR 0x8D, CHR 0xE4, CHR 0xBD, CHR 0xA0, CHR 0xEF, CHR 0xBC, CHR 0x8C,
   CHR 0xE6, CHR 0xA0, CHR 0xB9, CHR 0xE6, CHR 0x8D, CHR 0xAE, CHR 0xE4, CHR 0xB8, CHR 0x8A,
   CHR 0xE4, CHR 0xB8, CHR 0x8B, CHR 0xE6, CHR 0x96, CHR 0x87, CHR 0xE8, CHR 0x81, CHR 0x94,
   CHR 0xE7, CHR 0xB3, CHR 0xBB, CHR 0xEF, CHR 0xBC, CHR 0x8C, CHR 0xE5, CHR 0x88, CHR 0xA4,
   CHR 0xE6, CHR 0x96, CHR 0xAD, CHR 0xE7, CHR 0x94, CHR 0xA8, CHR 0xE6, CHR 0x88, CHR 0xB7,
   CHR 0xE7, CHR 0x8E, CHR 0xB0, CHR 0xE5, CHR 0x9C, CHR 0xA8, CHR 0xE7, CHR 0x9A, CHR 0x84,
   CHR 0xE7, CHR 0x8A, CHR 0xB6, CHR 0xE6, CHR 0x80, CHR 0x81, CHR 0xEF, CHR 0xBC, CHR 0x8C,
   CHR 0xE5, CHR 0x9B, CHR 0x9E, CHR 0xE5, CHR 0xA4, CHR 0x8D, CHR 0xE7, CHR 0xAC, CHR 0xA6,
   CHR 0xE5, CHR 0x90, CHR 0x88, CHR 0xE8, CHR 0xA7, CHR 0x92, CHR 0xE8, CHR 0x89, CHR 0xB2,
   CHR 0xE7, CHR 0x9A, CHR 0x84, CHR 0xE8, CHR 0xAF, CHR 0x9D, CHR 0xE8, CHR 0xAF, CHR 0xAD,
   CHR 0xE3, CHR 0x80, CHR 0x82]"

text \<open>
  Line 85: the template, a space and the instruction; \<^verbatim>\<open>unanswered_count\<close> is not read.
  The line stands at column 0 in the source and is taken here as a statement of the block
  it lies in. The comment above it (line 83) describes a text that names the number of
  times the user has not replied.
\<close>

definition reply_content :: "auto_config \<Rightarrow> string" where
  "reply_content cfg = auto_message_content cfg @ '' '' @ standing_instruction"

text \<open>The scheduler together with the message handler it holds.\<close>

record bot =
  auto_sender :: auto_state
  message_handler :: handler_state

text \<open>\<^verbatim>\<open>AutoSendHandler.auto_send_message\<close>, lines 64 to 107.\<close>

definition auto_send_message :: "auto_config \<Rightarrow> handler_env \<Rightarrow> readings \<Rightarrow> bot \<Rightarrow> bot" where
  "auto_send_message cfg env rd b =
     (if is_quiet_time cfg (wall_time rd) then
        b\<lparr>auto_sender := start_countdown cfg rd (auto_sender b)\<rparr>
      else if listen_list cfg \<noteq> [] then
        (let user_id = listen_list cfg ! choice_index rd;
             counted = (auto_sender b)\<lparr>unanswered_count := unanswered_count (auto_sender b) + 1\<rparr>
         in case add_to_queue env (enqueue_now_str rd) (enqueue_now rd) user_id
                   (reply_content cfg) ''System'' ''System'' False (message_handler b) of
              Inr queued \<Rightarrow>
                \<lparr>auto_sender = start_countdown cfg rd counted, message_handler = queued\<rparr>
            | Inl e \<Rightarrow>
                \<lparr>auto_sender = start_countdown cfg rd counted,
                 message_handler = message_handler b\<rparr>)
      else b\<lparr>auto_sender := start_countdown cfg rd (auto_sender b)\<rparr>)"

section \<open>Message arrival: src/src/main.py\<close>

text \<open>
  A transport message: \<^verbatim>\<open>msg.sender\<close> and the \<^verbatim>\<open>content\<close> (or \<^verbatim>\<open>text\<close>) attribute read at
  line 74.
\<close>

record wx_message =
  sender :: string
  msg_content :: "string option"

text \<open>
  \<^verbatim>\<open>ChatBot.handle_wxauto_message\<close>, lines 67 to 133. \<open>prepare\<close> stands for lines 88 to
  117 (removing the mention of the robot, recognising an image or an emoji), which call
  the transport and the image recognition service: it returns the content to queue and
  the \<^verbatim>\<open>is_image_recognition\<close> flag. The countdown is restarted at line 78, before
  anything that can raise.
\<close>

definition handle_wxauto_message ::
  "auto_config \<Rightarrow> handler_env \<Rightarrow> (wx_message \<Rightarrow> bool \<Rightarrow> error + string option \<times> bool) \<Rightarrow>
   readings \<Rightarrow> wx_message \<Rightarrow> string \<Rightarrow> bool \<Rightarrow> bot \<Rightarrow> bot" where
  "handle_wxauto_message cfg env prepare rd msg chatName grp b =
     (let restarted = start_countdown cfg rd (auto_sender b) in
      case prepare msg grp of
        Inl e \<Rightarrow> b\<lparr>auto_sender := restarted\<rparr>
      | Inr (content, img) \<Rightarrow>
          (case content of
             None \<Rightarrow> b\<lparr>auto_sender := restarted\<rparr>
           | Some text \<Rightarrow>
               if text = [] then b\<lparr>auto_sender := restarted\<rparr>
               else
                 \<lparr>auto_sender = restarted,
                  message_handler =
                    handle_user_message env (enqueue_now_str rd) (enqueue_now rd) text chatName
                      (sender msg) (sender msg) grp img (message_handler b)\<rparr>))"

text \<open>Several countdown expiries in a row, each with its own readings.\<close>

fun fire_all :: "auto_config \<Rightarrow> handler_env \<Rightarrow> readings list \<Rightarrow> bot \<Rightarrow> bot" where
  "fire_all cfg env [] b = b"
| "fire_all cfg env (rd # rds) b = fire_all cfg env rds (auto_send_message cfg env rd b)"

section \<open>Concrete configuration and inputs\<close>

text \<open>
  A configuration with the 8 second debounce window and the quiet window 22:00 to 08:00 of
  the scenarios, and collaborators that decide by keyword: a link is the text
  \<^verbatim>\<open>http://u\<close>, a voice request mentions \<^verbatim>\<open>voice\<close>, an image request mentions
  \<^verbatim>\<open>image\<close>. The argument switches link detection on or off.
\<close>

definition sample_env :: "bool \<Rightarrow> handler_env" where
  "sample_env weblens =
     \<lparr>QUEUE_TIMEOUT = 8,
      WEBLENS_ENABLED = weblens,
      NETWORK_SEARCH_ENABLED = False,
      current_avatar = ''avatar'',
      detect_urls = (\<lambda>s. Inr (if contains ''http://u'' s then [''http://u''] else [])),
      extract_web_content = (\<lambda>u. Inr (Some ''page'')),
      recognize_time_and_search = (\<lambda>m u a. Inr (False, [])),
      search_internet = (\<lambda>q. Inr None),
      is_voice_request = (\<lambda>s. Inr (contains ''voice'' s)),
      is_random_image_request = (\<lambda>s. contains ''image'' s),
      respond = (\<lambda>r m c s u g. Inr (Some ''ok'')),
      debug_intercepts = (\<lambda>s. Inr False)\<rparr>"

definition sample_cfg :: auto_config where
  "sample_cfg =
     \<lparr>quiet_time_start = ''22:00'', quiet_time_end = ''08:00'', min_hours = 1, max_hours = 3,
      auto_message_content = ''hello'', listen_list = [''alice'', ''bob'']\<rparr>"

definition private_message :: "string \<Rightarrow> string \<Rightarrow> real \<Rightarrow> inbound" where
  "private_message who content t =
     \<lparr>in_content = content, in_chat_id = who, in_sender_name = who, in_username = who,
      in_is_group = False, in_is_image_recognition = False,
      at_str = ''2025-01-01 12:00:00'', at_time = t\<rparr>"

definition group_message :: "string \<Rightarrow> string \<Rightarrow> string \<Rightarrow> real \<Rightarrow> inbound" where
  "group_message room who content t =
     \<lparr>in_content = content, in_chat_id = room, in_sender_name = who, in_username = who,
      in_is_group = True, in_is_image_recognition = False,
      at_str = ''2025-01-01 12:00:00'', at_time = t\<rparr>"

definition readings_at :: "nat \<Rightarrow> nat \<Rightarrow> readings" where
  "readings_at h m =
     \<lparr>wall_time = \<lparr>hour = h, minute = m, second = 0, microsecond = 0\<rparr>,
      choice_index = 1,
      enqueue_now_str = ''2025-01-01 12:00:00'',
      enqueue_now = 0,
      countdown_now = 0,
      countdown_draw = 1 / 2\<rparr>"

text \<open>The same collaborators with a link detector that raises.\<close>

definition failing_env :: handler_env where
  "failing_env = (sample_env True)\<lparr>detect_urls := (\<lambda>s. Inl ExternalError)\<rparr>"

text \<open>A transport message with plain text: nothing to strip and nothing to recognise.\<close>

definition plain_prepare :: "wx_message \<Rightarrow> bool \<Rightarrow> error + string option \<times> bool" where
  "plain_prepare msg grp = Inr (msg_content msg, False)"

definition fresh_bot :: bot where
  "fresh_bot = \<lparr>auto_sender = initial_auto, message_handler = empty_handler\<rparr>"

section \<open>Properties of the queue store\<close>

lemma flush_trigger_due:
  "flush_due env now key st \<Longrightarrow>
   flush_trigger env now key st = (message_queues st key, popped_store key st)"
  by (auto simp: flush_due_def flush_trigger_def popped_store_def split: option.splits)

lemma flush_trigger_not_due:
  "\<not> flush_due env now key st \<Longrightarrow> flush_trigger env now key st = (None, st)"
  by (auto simp: flush_due_def flush_trigger_def split: option.splits)

lemma flush_due_Some: "flush_due env now key st \<Longrightarrow> \<exists>q. message_queues st key = Some q"
  by (auto simp: flush_due_def split: option.splits)

lemma not_due_after_pop: "\<not> flush_due env' now' key (popped_store key st)"
  by (simp add: flush_due_def popped_store_def)

lemma process_state:
  "fst (snd (process_message_queue env now key st)) = snd (flush_trigger env now key st)"
  by (simp add: process_message_queue_def split: prod.splits option.splits sum.splits)

lemma process_not_due:
  "\<not> flush_due env now key st \<Longrightarrow>
   process_message_queue env now key st = (None, st, [LockAcquire, LockRelease])"
  by (simp add: process_message_queue_def flush_trigger_not_due with_queue_lock_def)

lemma process_due_trace:
  "flush_due env now key st \<Longrightarrow>
   \<exists>evs. snd (snd (process_message_queue env now key st)) =
      LockAcquire # QueuePop key # evs @ [LockRelease]"
  by (auto simp: process_message_queue_def flush_trigger_due with_queue_lock_def
      dest!: flush_due_Some split: prod.splits sum.splits)

lemma enqueue_existing:
  assumes "message_queues st (key_of m) = Some q" "enqueue env m st = Inr st'"
  shows "\<exists>found. detect_links env (in_content m) = Inr found \<and>
     message_queues st' = (message_queues st)(key_of m \<mapsto>
        q\<lparr>messages := messages q @ [in_content m], last_update := at_time m,
          has_link := (found \<noteq> [] \<or> has_link q),
          urls := urls q @ take 1 found\<rparr>)"
  using assms
  by (auto simp: enqueue_def key_of_def add_to_message_queue_def Let_def
      split: sum.splits list.splits if_splits)

lemma enqueue_new:
  assumes "message_queues st (key_of m) = None" "enqueue env m st = Inr st'"
  shows "\<exists>found. detect_links env (in_content m) = Inr found \<and>
     message_queues st' = (message_queues st)(key_of m \<mapsto>
        \<lparr>messages = [prefixed m], chat_id = in_chat_id m, sender_name = in_sender_name m,
         username = in_username m, is_group = in_is_group m,
         is_image_recognition = in_is_image_recognition m, last_update = at_time m,
         has_link = (found \<noteq> []), urls = found\<rparr>)"
  using assms
  by (auto simp: enqueue_def key_of_def add_to_message_queue_def Let_def prefixed_def
      split: sum.splits list.splits if_splits)

lemma enqueue_succeeds:
  "detect_links env (in_content m) = Inr found \<Longrightarrow> \<exists>st'. enqueue env m st = Inr st'"
  by (simp add: enqueue_def add_to_message_queue_def Let_def)

lemma enqueue_timers:
  assumes "enqueue env m st = Inr st'"
  shows "queue_timers st' = (queue_timers st)(key_of m \<mapsto> timer_seq st) \<and>
         timer_seq st' = Suc (timer_seq st) \<and>
         live_timers st' =
           insert (timer_seq st)
             (case queue_timers st (key_of m) of
                None \<Rightarrow> live_timers st
              | Some t \<Rightarrow> live_timers st - {t})"
  using assms
  by (auto simp: enqueue_def key_of_def add_to_message_queue_def Let_def split: sum.splits)

lemma enqueue_all_existing:
  "message_queues st k = Some q \<Longrightarrow> \<forall>m\<in>set ms. key_of m = k \<Longrightarrow>
   enqueue_all env ms st = Inr st' \<Longrightarrow>
   \<exists>q'. message_queues st' k = Some q' \<and>
        messages q' = messages q @ map in_content ms \<and>
        last_update q' = (if ms = [] then last_update q else at_time (last ms))"
proof (induction ms arbitrary: st q)
  case Nil
  then show ?case by simp
next
  case (Cons m ms)
  from Cons.prems obtain st1 where e: "enqueue env m st = Inr st1"
    and r: "enqueue_all env ms st1 = Inr st'"
    by (auto split: sum.splits)
  from Cons.prems have k: "key_of m = k" by simp
  from enqueue_existing[OF _ e, of q] Cons.prems(1) k
  obtain q1 where q1: "message_queues st1 k = Some q1"
    "messages q1 = messages q @ [in_content m]" "last_update q1 = at_time m"
    by auto
  from Cons.IH[OF q1(1) _ r] Cons.prems(2)
  obtain q' where "message_queues st' k = Some q'"
    "messages q' = messages q1 @ map in_content ms"
    "last_update q' = (if ms = [] then last_update q1 else at_time (last ms))"
    by auto
  with q1 show ?case by auto
qed

lemma enqueue_all_meta:
  "message_queues st k = Some q \<Longrightarrow> \<forall>m\<in>set ms. key_of m = k \<Longrightarrow>
   enqueue_all env ms st = Inr st' \<Longrightarrow>
   \<exists>q'. message_queues st' k = Some q' \<and>
        chat_id q' = chat_id q \<and> sender_name q' = sender_name q \<and>
        username q' = username q \<and> is_group q' = is_group q"
proof (induction ms arbitrary: st q)
  case Nil
  then show ?case by simp
next
  case (Cons m ms)
  from Cons.prems obtain st1 where e: "enqueue env m st = Inr st1"
    and r: "enqueue_all env ms st1 = Inr st'"
    by (auto split: sum.splits)
  from Cons.prems have k: "key_of m = k" by simp
  from enqueue_existing[OF _ e, of q] Cons.prems(1) k
  obtain q1 where q1: "message_queues st1 k = Some q1"
    "chat_id q1 = chat_id q" "sender_name q1 = sender_name q"
    "username q1 = username q" "is_group q1 = is_group q"
    by auto
  from Cons.prems(2) have ks: "\<forall>m\<in>set ms. key_of m = k" by simp
  from Cons.IH[OF q1(1) ks r] obtain q' where "message_queues st' k = Some q'"
    "chat_id q' = chat_id q1" "sender_name q' = sender_name q1"
    "username q' = username q1" "is_group q' = is_group q1" by blast
  with q1 show ?case by simp
qed

lemma enqueue_all_seq:
  "enqueue_all env ms st = Inr st' \<Longrightarrow> timer_seq st' = timer_seq st + length ms"
proof (induction ms arbitrary: st)
  case Nil
  then show ?case by simp
next
  case (Cons m ms)
  from Cons.prems obtain st1 where e: "enqueue env m st = Inr st1"
    and r: "enqueue_all env ms st1 = Inr st'"
    by (auto split: sum.splits)
  from enqueue_timers[OF e] Cons.IH[OF r] show ?case by simp
qed

lemma enqueue_all_stays_dead:
  "enqueue_all env ms st = Inr st' \<Longrightarrow> t \<notin> live_timers st \<Longrightarrow> t < timer_seq st \<Longrightarrow>
   t \<notin> live_timers st'"
proof (induction ms arbitrary: st)
  case Nil
  then show ?case by simp
next
  case (Cons m ms)
  from Cons.prems obtain st1 where e: "enqueue env m st = Inr st1"
    and r: "enqueue_all env ms st1 = Inr st'"
    by (auto split: sum.splits)
  from enqueue_timers[OF e] Cons.prems(2,3)
  have "t \<notin> live_timers st1" "t < timer_seq st1"
    by (auto split: option.splits)
  from Cons.IH[OF r this] show ?case .
qed

lemma enqueue_all_timers:
  assumes keys: "\<forall>m\<in>set ms. key_of m = k"
    and enq: "enqueue_all env (m # ms) st = Inr st'"
    and km: "key_of m = k"
  shows "queue_timers st' k = Some (timer_seq st + length ms) \<and>
         timer_seq st + length ms \<in> live_timers st' \<and>
         (\<forall>t. timer_seq st \<le> t \<and> t < timer_seq st + length ms \<longrightarrow> t \<notin> live_timers st')"
  using keys enq km
proof (induction ms arbitrary: m st)
  case Nil
  then obtain e: "enqueue env m st = Inr st'"
    by (auto split: sum.splits)
  from enqueue_timers[OF e] Nil.prems(3) show ?case by simp
next
  case (Cons m2 ms)
  from Cons.prems(2) obtain st1 where e: "enqueue env m st = Inr st1"
    and r: "enqueue_all env (m2 # ms) st1 = Inr st'"
    by (auto split: sum.splits)
  from Cons.prems(1) have k2: "key_of m2 = k" and ks: "\<forall>x\<in>set ms. key_of x = k" by simp_all
  from enqueue_timers[OF e] Cons.prems(3)
  have t1: "queue_timers st1 k = Some (timer_seq st)" "timer_seq st1 = Suc (timer_seq st)"
    by auto
  from Cons.IH[OF ks r k2]
  have ih: "queue_timers st' k = Some (timer_seq st1 + length ms)"
    "timer_seq st1 + length ms \<in> live_timers st'"
    "\<forall>t. timer_seq st1 \<le> t \<and> t < timer_seq st1 + length ms \<longrightarrow> t \<notin> live_timers st'"
    by blast+
  from r obtain st2 where e2: "enqueue env m2 st1 = Inr st2"
    and r2: "enqueue_all env ms st2 = Inr st'"
    by (auto split: sum.splits)
  from enqueue_timers[OF e2] k2 t1
  have "timer_seq st \<notin> live_timers st2" "timer_seq st < timer_seq st2"
    by auto
  from enqueue_all_stays_dead[OF r2 this]
  have first_dead: "timer_seq st \<notin> live_timers st'" .
  have "\<forall>t. timer_seq st \<le> t \<and> t < timer_seq st + length (m2 # ms) \<longrightarrow> t \<notin> live_timers st'"
  proof (intro allI impI)
    fix t assume a: "timer_seq st \<le> t \<and> t < timer_seq st + length (m2 # ms)"
    show "t \<notin> live_timers st'"
    proof (cases "t = timer_seq st")
      case True
      with first_dead show ?thesis by simp
    next
      case False
      with a t1(2) have "timer_seq st1 \<le> t \<and> t < timer_seq st1 + length ms" by simp
      with ih(3) show ?thesis by blast
    qed
  qed
  with ih(1,2) t1(2) show ?case by simp
qed

lemmas sample_defs =
  sample_env_def sample_cfg_def private_message_def group_message_def readings_at_def
  fresh_bot_def initial_auto_def empty_handler_def store_after_def failing_env_def
  plain_prepare_def

lemmas enqueue_defs =
  enqueue_def add_to_message_queue_def add_to_queue_def detect_links_def key_of_def
  get_queue_key_def prefixed_def queue_after_def queued_count_def

section \<open>Properties of the flush\<close>

lemma dispatches_append: "dispatches (xs @ ys) = dispatches xs @ dispatches ys"
  by (induction xs rule: dispatches.induct) auto

lemma snd_and_then:
  "snd (and_then m f) = (case fst m of Inl e \<Rightarrow> snd m | Inr x \<Rightarrow> snd m @ snd (f x))"
  by (auto simp: and_then_def split: prod.splits sum.splits)

lemma link_step_plain: "\<forall>ev\<in>set (snd (link_step env queue)). plain ev"
  by (auto simp: link_step_def snd_and_then done_io_def call_def plain_def
      split: list.splits option.splits sum.splits if_splits)

lemma search_step_plain: "\<forall>ev\<in>set (snd (search_step env queue p)). plain ev"
  by (auto simp: search_step_def snd_and_then done_io_def call_def plain_def
      split: list.splits option.splits prod.splits sum.splits if_splits)

lemma plain_dispatches: "\<forall>ev\<in>set evs. plain ev \<Longrightarrow> dispatches evs = []"
  by (induction evs rule: dispatches.induct) (auto simp: plain_def)

lemma classify_no_lock:
  "\<forall>ev\<in>set (snd (classify_and_dispatch env queue p)). ev \<noteq> LockAcquire \<and> ev \<noteq> LockRelease"
  by (auto simp: classify_and_dispatch_def snd_and_then call_def dispatch_def
      split: sum.splits if_splits)

lemma flush_process_no_lock:
  "\<forall>ev\<in>set (snd (flush_process env queue)). ev \<noteq> LockAcquire \<and> ev \<noteq> LockRelease"
proof -
  have l: "LockAcquire \<notin> set (snd (link_step env queue))"
    "LockRelease \<notin> set (snd (link_step env queue))"
    using link_step_plain[of env queue] by (auto simp: plain_def)
  have s: "\<And>p. LockAcquire \<notin> set (snd (search_step env queue p))"
    "\<And>p. LockRelease \<notin> set (snd (search_step env queue p))"
    using search_step_plain[of env queue] by (auto simp: plain_def)
  have c: "\<And>p. LockAcquire \<notin> set (snd (classify_and_dispatch env queue p))"
    "\<And>p. LockRelease \<notin> set (snd (classify_and_dispatch env queue p))"
    using classify_no_lock[of env queue] by auto
  show ?thesis
    using l s c
    by (auto simp: flush_process_def snd_and_then dispatch_def call_def
        split: sum.splits if_splits)
qed

lemma outside_lock_held:
  "\<forall>ev\<in>set body. ev \<noteq> LockAcquire \<and> ev \<noteq> LockRelease \<Longrightarrow>
   events_outside_lock True (body @ rest) = events_outside_lock True rest"
proof (induction body)
  case Nil
  then show ?case by simp
next
  case (Cons ev evs)
  then show ?case by (cases ev) auto
qed

lemma under_lock_held:
  "\<forall>ev\<in>set body. ev \<noteq> LockAcquire \<and> ev \<noteq> LockRelease \<Longrightarrow>
   external_under_lock True (body @ rest) =
     ((\<exists>ev\<in>set body. is_external ev) \<or> external_under_lock True rest)"
proof (induction body)
  case Nil
  then show ?case by simp
next
  case (Cons ev evs)
  then show ?case by (cases ev) auto
qed

lemma process_trace_shape:
  "\<exists>body. snd (snd (process_message_queue env now key st)) = with_queue_lock body \<and>
     (\<forall>ev\<in>set body. ev \<noteq> LockAcquire \<and> ev \<noteq> LockRelease) \<and>
     (case fst (flush_trigger env now key st) of
        None \<Rightarrow> body = []
      | Some queue \<Rightarrow> body = QueuePop key # snd (flush_process env queue))"
proof (cases "flush_trigger env now key st")
  case (Pair r st')
  show ?thesis
  proof (cases r)
    case None
    with Pair show ?thesis
      by (auto simp: process_message_queue_def)
  next
    case (Some queue)
    obtain res evs where fp: "flush_process env queue = (res, evs)"
      by (cases "flush_process env queue")
    with flush_process_no_lock[of env queue]
    have "\<forall>ev\<in>set (QueuePop key # evs). ev \<noteq> LockAcquire \<and> ev \<noteq> LockRelease" by simp
    moreover have "snd (snd (process_message_queue env now key st)) =
        with_queue_lock (QueuePop key # evs)"
      using Pair Some fp by (simp add: process_message_queue_def split: sum.splits)
    ultimately show ?thesis using Pair Some fp by (intro exI[of _ "QueuePop key # evs"]) simp
  qed
qed

lemma starts_with_append: "starts_with p (p @ s)"
  by (induction p) auto

lemma fst_and_then:
  "fst (and_then m f) = (case fst m of Inl e \<Rightarrow> Inl e | Inr x \<Rightarrow> fst (f x))"
  by (auto simp: and_then_def split: prod.splits sum.splits)

lemma process_due_full:
  assumes "flush_due env now key st" "message_queues st key = Some q"
  shows "process_message_queue env now key st =
     (returned (flush_process env q), popped_store key st,
      LockAcquire # QueuePop key # snd (flush_process env q) @ [LockRelease])"
  using assms
  by (simp add: process_message_queue_def flush_trigger_due returned_def with_queue_lock_def
      split: prod.splits sum.splits)

lemma classify_nonempty: "snd (classify_and_dispatch env queue p) \<noteq> []"
  by (auto simp: classify_and_dispatch_def snd_and_then call_def split: sum.splits)

lemma link_step_raise:
  "fst (link_step env queue) = Inl e \<Longrightarrow> snd (link_step env queue) \<noteq> []"
  by (auto simp: link_step_def fst_and_then snd_and_then done_io_def call_def
      split: list.splits option.splits sum.splits if_splits)

lemma search_step_raise:
  "fst (search_step env queue p) = Inl e \<Longrightarrow> snd (search_step env queue p) \<noteq> []"
  by (auto simp: search_step_def fst_and_then snd_and_then done_io_def call_def
      split: list.splits option.splits sum.splits if_splits prod.splits)

lemma flush_process_nonempty: "snd (flush_process env queue) \<noteq> []"
  using classify_nonempty[of env queue] link_step_raise[of env queue]
    search_step_raise[of env queue]
  by (auto simp: flush_process_def snd_and_then dispatch_def call_def split: sum.splits)

lemma link_step_prefix:
  "fst (link_step env queue) = Inr p \<Longrightarrow> starts_with (combined_message queue) p"
  using starts_with_append[of "combined_message queue" "[]"]
  by (auto simp: link_step_def fst_and_then done_io_def call_def starts_with_append
      split: list.splits option.splits sum.splits if_splits)

lemma search_step_prefix:
  "fst (search_step env queue p) = Inr p' \<Longrightarrow> starts_with (combined_message queue) p \<Longrightarrow>
   starts_with (combined_message queue) p'"
  by (auto simp: search_step_def fst_and_then done_io_def call_def starts_with_append
      split: list.splits option.splits sum.splits if_splits prod.splits)

lemma link_step_off:
  "\<not> WEBLENS_ENABLED env \<Longrightarrow> fst (link_step env queue) = Inr (combined_message queue)"
  by (simp add: link_step_def done_io_def)

lemma search_step_off:
  "\<not> NETWORK_SEARCH_ENABLED env \<Longrightarrow> fst (search_step env queue p) = Inr p"
  by (simp add: search_step_def done_io_def)

lemma flush_process_marker:
  assumes "fst (link_step env queue) = Inr p"
    "check_time_reminder_and_search p (sender_name queue)"
  shows "dispatches (snd (flush_process env queue)) =
     [Dispatch Text p (chat_id queue) (sender_name queue) (username queue) (is_group queue)]"
  using assms plain_dispatches[OF link_step_plain, of env queue]
  by (simp add: flush_process_def snd_and_then dispatches_append dispatch_def call_def)

lemma flush_process_classified:
  assumes "fst (link_step env queue) = Inr p"
    "\<not> check_time_reminder_and_search p (sender_name queue)"
    "fst (search_step env queue p) = Inr p'" "is_voice_request env p' = Inr voice"
  shows "dispatches (snd (flush_process env queue)) =
     [Dispatch (if voice then Voice
                else if is_random_image_request env p' then RandomImage else Text)
        p' (chat_id queue) (sender_name queue) (username queue) (is_group queue)]"
  using assms plain_dispatches[OF link_step_plain, of env queue]
    plain_dispatches[OF search_step_plain, of env queue p]
  by (simp add: flush_process_def classify_and_dispatch_def snd_and_then dispatches_append
      dispatch_def call_def)

lemmas flush_defs =
  process_message_queue_def flush_trigger_def flush_process_def link_step_def search_step_def
  classify_and_dispatch_def dispatch_def and_then_def call_def done_io_def with_queue_lock_def
  combined_message_def check_time_reminder_and_search_def lower_def lower_char_def
  search_marker_def returned_def

section \<open>Claims about the queue store\<close>

text \<open>
  C3. \<^verbatim>\<open>_process_message_queue\<close> removes the queue entry and the timer handle of the key,
  and goes on to process the entry, exactly when an entry exists and the time since its
  \<^verbatim>\<open>last_update\<close> is at least the timeout minus the tolerance of 0.1 seconds: the call
  then consists of the acquire, the pop, the processing of the popped entry (which calls at
  least one collaborator) and the release, and it returns what the processing returns.
  Otherwise it returns without any effect: the queue store and the timer map are unchanged
  and nothing happens between taking and releasing the lock. Of two calls for the same
  key, one after the other, at most one pops the entry.
\<close>

theorem flush_trigger_pops_iff_due:
  "(flush_due env now key st \<longrightarrow>
      fst (flush_trigger env now key st) = message_queues st key \<and>
      fst (snd (process_message_queue env now key st)) = popped_store key st \<and>
      QueuePop key \<in> set (snd (snd (process_message_queue env now key st)))) \<and>
   (flush_due env now key st \<and> message_queues st key = Some q \<longrightarrow>
      process_message_queue env now key st =
        (returned (flush_process env q), popped_store key st,
         LockAcquire # QueuePop key # snd (flush_process env q) @ [LockRelease]) \<and>
      snd (flush_process env q) \<noteq> []) \<and>
   (\<not> flush_due env now key st \<longrightarrow>
      flush_trigger env now key st = (None, st) \<and>
      process_message_queue env now key st = (None, st, [LockAcquire, LockRelease])) \<and>
   (fst (flush_trigger env now key st) = None \<or>
    fst (flush_trigger env' now' key (snd (flush_trigger env now key st))) = None)"
proof (cases "flush_due env now key st")
  case True
  from process_due_trace[OF True] obtain evs where
    "snd (snd (process_message_queue env now key st)) =
      LockAcquire # QueuePop key # evs @ [LockRelease]" ..
  then have "QueuePop key \<in> set (snd (snd (process_message_queue env now key st)))" by simp
  moreover have "fst (flush_trigger env' now' key (snd (flush_trigger env now key st))) = None"
    by (simp add: flush_trigger_due[OF True] flush_trigger_not_due[OF not_due_after_pop])
  moreover have "process_message_queue env now key st =
        (returned (flush_process env q), popped_store key st,
         LockAcquire # QueuePop key # snd (flush_process env q) @ [LockRelease])"
    if "message_queues st key = Some q"
    by (rule process_due_full[OF True that])
  ultimately show ?thesis
    using True flush_process_nonempty[of env q]
    by (simp add: process_state flush_trigger_due)
next
  case False
  then show ?thesis
    by (simp add: flush_trigger_not_due process_not_due)
qed

text \<open>
  The scenario of the specification: window 8 s, messages at 0 s and 7 s. The trigger at
  8 s does nothing; the trigger at 15 s pops the entry, classifies the joined text and
  calls the text responder, and a second one finds no entry.
\<close>

theorem flush_trigger_pops_iff_due_witness:
  "(case enqueue_all (sample_env False)
           [private_message ''alice'' ''one'' 0, private_message ''alice'' ''two'' 7]
           empty_handler of
      Inl e \<Rightarrow> False
    | Inr st \<Rightarrow>
        \<not> flush_due (sample_env False) 8 ''alice'' st \<and>
        process_message_queue (sample_env False) 8 ''alice'' st =
          (None, st, [LockAcquire, LockRelease]) \<and>
        flush_due (sample_env False) 15 ''alice'' st \<and>
        fst (flush_trigger (sample_env False) 15 ''alice'' st) = message_queues st ''alice'' \<and>
        message_queues (fst (snd (process_message_queue (sample_env False) 15 ''alice'' st)))
          ''alice'' = None \<and>
        queue_timers (fst (snd (process_message_queue (sample_env False) 15 ''alice'' st)))
          ''alice'' = None \<and>
        process_message_queue (sample_env False) 15 ''alice'' st =
          (Some ''ok'', popped_store ''alice'' st,
           [LockAcquire,
            QueuePop ''alice'',
            IsVoiceRequest (''[2025-01-01 12:00:00]'' @ [CHR 0x0A] @ ''one'' @ [CHR 0x0A] @ ''two''),
            IsRandomImageRequest
              (''[2025-01-01 12:00:00]'' @ [CHR 0x0A] @ ''one'' @ [CHR 0x0A] @ ''two''),
            Dispatch Text (''[2025-01-01 12:00:00]'' @ [CHR 0x0A] @ ''one'' @ [CHR 0x0A] @ ''two'')
              ''alice'' ''alice'' ''alice'' False,
            LockRelease]) \<and>
        fst (flush_trigger (sample_env False) 16 ''alice''
              (snd (flush_trigger (sample_env False) 15 ''alice'' st))) = None)"
proof -
  let ?q = "\<lparr>messages = [''[2025-01-01 12:00:00]'' @ [CHR 0x0A] @ ''one'', ''two''],
      chat_id = ''alice'', sender_name = ''alice'', username = ''alice'', is_group = False,
      is_image_recognition = False, last_update = 7, has_link = False, urls = []\<rparr>"
  obtain st where st: "enqueue_all (sample_env False)
      [private_message ''alice'' ''one'' 0, private_message ''alice'' ''two'' 7] empty_handler =
      Inr st"
    and q: "message_queues st ''alice'' = Some ?q"
    by (simp add: enqueue_defs sample_defs Let_def)
  have early: "\<not> flush_due (sample_env False) 8 ''alice'' st"
    using q by (simp add: flush_due_def sample_env_def)
  have late: "flush_due (sample_env False) 15 ''alice'' st"
    using q by (simp add: flush_due_def sample_env_def)
  have processed: "flush_process (sample_env False) ?q =
      (Inr (Some ''ok''),
       [IsVoiceRequest (''[2025-01-01 12:00:00]'' @ [CHR 0x0A] @ ''one'' @ [CHR 0x0A] @ ''two''),
        IsRandomImageRequest
          (''[2025-01-01 12:00:00]'' @ [CHR 0x0A] @ ''one'' @ [CHR 0x0A] @ ''two''),
        Dispatch Text (''[2025-01-01 12:00:00]'' @ [CHR 0x0A] @ ''one'' @ [CHR 0x0A] @ ''two'')
          ''alice'' ''alice'' ''alice'' False])"
    by (simp add: flush_defs sample_defs)
  from flush_trigger_pops_iff_due[of "sample_env False" 8 "''alice''" st ?q "sample_env False" 16]
    early
  have a: "process_message_queue (sample_env False) 8 ''alice'' st =
      (None, st, [LockAcquire, LockRelease])"
    by blast
  note at15 =
    flush_trigger_pops_iff_due[of "sample_env False" 15 "''alice''" st ?q "sample_env False" 16]
  from at15 late q
  have b: "fst (flush_trigger (sample_env False) 15 ''alice'' st) = message_queues st ''alice''"
    "fst (snd (process_message_queue (sample_env False) 15 ''alice'' st)) =
       popped_store ''alice'' st"
    "process_message_queue (sample_env False) 15 ''alice'' st =
        (returned (flush_process (sample_env False) ?q), popped_store ''alice'' st,
         LockAcquire # QueuePop ''alice'' # snd (flush_process (sample_env False) ?q) @
           [LockRelease])"
    by simp_all
  from at15[THEN conjunct2, THEN conjunct2, THEN conjunct2] b(1) q
  have c: "fst (flush_trigger (sample_env False) 16 ''alice''
           (snd (flush_trigger (sample_env False) 15 ''alice'' st))) = None"
    by simp
  have d: "message_queues (popped_store ''alice'' st) ''alice'' = None"
    "queue_timers (popped_store ''alice'' st) ''alice'' = None"
    by (simp_all add: popped_store_def)
  have e: "process_message_queue (sample_env False) 15 ''alice'' st =
      (Some ''ok'', popped_store ''alice'' st,
       [LockAcquire,
        QueuePop ''alice'',
        IsVoiceRequest (''[2025-01-01 12:00:00]'' @ [CHR 0x0A] @ ''one'' @ [CHR 0x0A] @ ''two''),
        IsRandomImageRequest
          (''[2025-01-01 12:00:00]'' @ [CHR 0x0A] @ ''one'' @ [CHR 0x0A] @ ''two''),
        Dispatch Text (''[2025-01-01 12:00:00]'' @ [CHR 0x0A] @ ''one'' @ [CHR 0x0A] @ ''two'')
          ''alice'' ''alice'' ''alice'' False,
        LockRelease])"
    unfolding b(3) processed by (simp add: returned_def)
  show ?thesis
    unfolding st using early late a b(1) c d e by simp
qed

text \<open>
  C4. When N messages (N at least 1) are enqueued for one key, starting with no queue for
  that key and with no flush in between, the queue buffers exactly these N messages in
  arrival order: the first with the timestamp prefix, the others unchanged, under the
  metadata of the first. The timers armed by the earlier messages are cancelled and the
  timer of the last message is the one live timer of the key. The trigger that finds the
  window elapsed pops all N messages in one call of \<^verbatim>\<open>_process_message_queue\<close>, which
  joins them with newlines and processes the joined string; the next trigger finds no
  entry and does nothing. The processing calls a collaborator; the string it passes on
  begins with the joined string (a link or search result may be appended) and, when no
  collaborator raises, exactly one responder receives it.
\<close>

theorem coalescing:
  assumes fresh: "message_queues st k = None"
    and same_key: "\<forall>x\<in>set (m # ms). key_of x = k"
    and enq: "enqueue_all env (m # ms) st = Inr st'"
  shows "\<exists>q. message_queues st' k = Some q \<and>
           messages q = prefixed m # map in_content ms \<and>
           length (messages q) = length (m # ms) \<and>
           combined_message q = join [CHR 0x0A] (prefixed m # map in_content ms) \<and>
           chat_id q = in_chat_id m \<and> sender_name q = in_sender_name m \<and>
           username q = in_username m \<and> is_group q = in_is_group m \<and>
           queue_timers st' k = Some (timer_seq st + length ms) \<and>
           timer_seq st + length ms \<in> live_timers st' \<and>
           (\<forall>t. timer_seq st \<le> t \<and> t < timer_seq st + length ms \<longrightarrow> t \<notin> live_timers st') \<and>
           (QUEUE_TIMEOUT env - 1 / 10 \<le> now - at_time (last (m # ms)) \<longrightarrow>
              fst (flush_trigger env now k st') = Some q \<and>
              fst (flush_trigger env now' k (snd (flush_trigger env now k st'))) = None \<and>
              process_message_queue env now k st' =
                (returned (flush_process env q), popped_store k st',
                 LockAcquire # QueuePop k # snd (flush_process env q) @ [LockRelease]) \<and>
              process_message_queue env now' k (popped_store k st') =
                (None, popped_store k st', [LockAcquire, LockRelease])) \<and>
           snd (flush_process env q) \<noteq> [] \<and>
           (\<not> WEBLENS_ENABLED env \<longrightarrow> fst (link_step env q) = Inr (combined_message q)) \<and>
           (\<not> NETWORK_SEARCH_ENABLED env \<longrightarrow> fst (search_step env q p) = Inr p) \<and>
           (fst (link_step env q) = Inr p \<longrightarrow> starts_with (combined_message q) p) \<and>
           (fst (link_step env q) = Inr p \<and>
            check_time_reminder_and_search p (in_sender_name m) \<longrightarrow>
              dispatches (snd (flush_process env q)) =
                [Dispatch Text p (in_chat_id m) (in_sender_name m) (in_username m)
                   (in_is_group m)]) \<and>
           (fst (link_step env q) = Inr p \<and>
            \<not> check_time_reminder_and_search p (in_sender_name m) \<and>
            fst (search_step env q p) = Inr p' \<and> is_voice_request env p' = Inr voice \<longrightarrow>
              starts_with (combined_message q) p' \<and>
              dispatches (snd (flush_process env q)) =
                [Dispatch (if voice then Voice
                           else if is_random_image_request env p' then RandomImage else Text)
                   p' (in_chat_id m) (in_sender_name m) (in_username m) (in_is_group m)])"
proof -
  from enq obtain st1 where e: "enqueue env m st = Inr st1"
    and r: "enqueue_all env ms st1 = Inr st'"
    by (auto split: sum.splits)
  from same_key have k: "key_of m = k" and ks: "\<forall>x\<in>set ms. key_of x = k" by simp_all
  from enqueue_new[OF _ e] fresh k
  obtain q1 where q1: "message_queues st1 k = Some q1" "messages q1 = [prefixed m]"
    "last_update q1 = at_time m"
    "chat_id q1 = in_chat_id m" "sender_name q1 = in_sender_name m"
    "username q1 = in_username m" "is_group q1 = in_is_group m"
    by auto
  from enqueue_all_existing[OF q1(1) ks r]
  obtain q where q: "message_queues st' k = Some q"
    "messages q = messages q1 @ map in_content ms"
    "last_update q = (if ms = [] then last_update q1 else at_time (last ms))"
    by auto
  from enqueue_all_meta[OF q1(1) ks r] q(1) q1
  have meta: "chat_id q = in_chat_id m" "sender_name q = in_sender_name m"
    "username q = in_username m" "is_group q = in_is_group m"
    by auto
  have shape: "messages q = prefixed m # map in_content ms"
    "length (messages q) = length (m # ms)"
    "combined_message q = join [CHR 0x0A] (prefixed m # map in_content ms)"
    using q(2) q1(2) by (simp_all add: combined_message_def)
  have timers: "queue_timers st' k = Some (timer_seq st + length ms) \<and>
      timer_seq st + length ms \<in> live_timers st' \<and>
      (\<forall>t. timer_seq st \<le> t \<and> t < timer_seq st + length ms \<longrightarrow> t \<notin> live_timers st')"
    by (rule enqueue_all_timers[OF ks enq k])
  have lu: "last_update q = at_time (last (m # ms))"
    using q(3) q1(3) by simp
  have flush: "fst (flush_trigger env now k st') = Some q \<and>
        fst (flush_trigger env now' k (snd (flush_trigger env now k st'))) = None \<and>
        process_message_queue env now k st' =
          (returned (flush_process env q), popped_store k st',
           LockAcquire # QueuePop k # snd (flush_process env q) @ [LockRelease]) \<and>
        process_message_queue env now' k (popped_store k st') =
          (None, popped_store k st', [LockAcquire, LockRelease])"
    if "QUEUE_TIMEOUT env - 1 / 10 \<le> now - at_time (last (m # ms))"
  proof -
    from that q(1) lu have due: "flush_due env now k st'"
      by (simp add: flush_due_def)
    show ?thesis
      by (simp add: flush_trigger_due[OF due] q(1) flush_trigger_not_due[OF not_due_after_pop]
          process_due_full[OF due q(1)] process_not_due[OF not_due_after_pop])
  qed
  have off: "\<not> WEBLENS_ENABLED env \<longrightarrow> fst (link_step env q) = Inr (combined_message q)"
    "\<not> NETWORK_SEARCH_ENABLED env \<longrightarrow> fst (search_step env q p) = Inr p"
    by (simp_all add: link_step_off search_step_off)
  have pre: "fst (link_step env q) = Inr p \<longrightarrow> starts_with (combined_message q) p"
    by (simp add: link_step_prefix)
  have marker: "dispatches (snd (flush_process env q)) =
      [Dispatch Text p (in_chat_id m) (in_sender_name m) (in_username m) (in_is_group m)]"
    if "fst (link_step env q) = Inr p" "check_time_reminder_and_search p (in_sender_name m)"
    using flush_process_marker[of env q p] that meta by simp
  have classified: "starts_with (combined_message q) p' \<and>
      dispatches (snd (flush_process env q)) =
        [Dispatch (if voice then Voice
                   else if is_random_image_request env p' then RandomImage else Text)
           p' (in_chat_id m) (in_sender_name m) (in_username m) (in_is_group m)]"
    if "fst (link_step env q) = Inr p" "\<not> check_time_reminder_and_search p (in_sender_name m)"
      "fst (search_step env q p) = Inr p'" "is_voice_request env p' = Inr voice"
    using flush_process_classified[of env q p p' voice] that meta
      search_step_prefix[OF that(3) link_step_prefix[OF that(1)]]
    by simp
  show ?thesis
    using q(1) shape meta timers flush flush_process_nonempty[of env q] off pre marker classified
    by (intro exI[of _ q]) blast
qed

text \<open>
  Three messages for one key at 0 s, 3 s and 7 s, flushed at 20 s by one trigger: the
  timers of the first two are cancelled, and the text responder receives the three
  messages joined by newlines. Two messages of which the second carries the marker of line
  1039: the text responder receives the two messages joined by a newline.
\<close>

theorem coalescing_witness:
  "map key_of [private_message ''alice'' ''one'' 0, private_message ''alice'' ''two'' 3,
              private_message ''alice'' ''three'' 7] = [''alice'', ''alice'', ''alice''] \<and>
   (case enqueue_all (sample_env False)
           [private_message ''alice'' ''one'' 0, private_message ''alice'' ''two'' 3,
            private_message ''alice'' ''three'' 7] empty_handler of
      Inl e \<Rightarrow> False
    | Inr st \<Rightarrow>
        map_option messages (message_queues st ''alice'') =
          Some [''[2025-01-01 12:00:00]'' @ [CHR 0x0A] @ ''one'', ''two'', ''three''] \<and>
        map_option combined_message (message_queues st ''alice'') =
          Some (''[2025-01-01 12:00:00]'' @ [CHR 0x0A] @ ''one'' @ [CHR 0x0A] @ ''two'' @
                [CHR 0x0A] @ ''three'') \<and>
        queue_timers st ''alice'' = Some 2 \<and>
        live_timers st = {2} \<and>
        fst (flush_trigger (sample_env False) 20 ''alice'' st) = message_queues st ''alice'' \<and>
        fst (flush_trigger (sample_env False) 21 ''alice''
              (snd (flush_trigger (sample_env False) 20 ''alice'' st))) = None \<and>
        process_message_queue (sample_env False) 20 ''alice'' st =
          (Some ''ok'', popped_store ''alice'' st,
           [LockAcquire,
            QueuePop ''alice'',
            IsVoiceRequest (''[2025-01-01 12:00:00]'' @ [CHR 0x0A] @ ''one'' @ [CHR 0x0A] @
                              ''two'' @ [CHR 0x0A] @ ''three''),
            IsRandomImageRequest (''[2025-01-01 12:00:00]'' @ [CHR 0x0A] @ ''one'' @ [CHR 0x0A] @
                              ''two'' @ [CHR 0x0A] @ ''three''),
            Dispatch Text (''[2025-01-01 12:00:00]'' @ [CHR 0x0A] @ ''one'' @ [CHR 0x0A] @
                              ''two'' @ [CHR 0x0A] @ ''three'')
              ''alice'' ''alice'' ''alice'' False,
            LockRelease]) \<and>
        process_message_queue (sample_env False) 21 ''alice'' (popped_store ''alice'' st) =
          (None, popped_store ''alice'' st, [LockAcquire, LockRelease])) \<and>
   (case enqueue_all (sample_env False)
           [private_message ''bob'' ''see'' 0, private_message ''bob'' search_marker 1]
           empty_handler of
      Inl e \<Rightarrow> False
    | Inr st \<Rightarrow>
        map_option (\<lambda>q. dispatches (snd (flush_process (sample_env False) q)))
          (message_queues st ''bob'') =
          Some [Dispatch Text (''[2025-01-01 12:00:00]'' @ [CHR 0x0A] @ ''see'' @ [CHR 0x0A] @
                                 search_marker) ''bob'' ''bob'' ''bob'' False])"
proof -
  let ?env = "sample_env False"
  let ?m = "private_message ''alice'' ''one'' 0"
  let ?ms = "[private_message ''alice'' ''two'' 3, private_message ''alice'' ''three'' 7]"
  let ?text = "''[2025-01-01 12:00:00]'' @ [CHR 0x0A] @ ''one'' @ [CHR 0x0A] @ ''two'' @
                [CHR 0x0A] @ ''three''"
  have keys: "\<forall>x\<in>set (?m # ?ms). key_of x = ''alice''"
    by (simp add: key_of_def private_message_def get_queue_key_def)
  obtain st where st: "enqueue_all ?env (?m # ?ms) empty_handler = Inr st"
    and live: "live_timers st = {2}"
    by (simp add: enqueue_defs sample_defs Let_def)
  have fresh: "message_queues empty_handler ''alice'' = None"
    by (simp add: empty_handler_def)
  have due: "QUEUE_TIMEOUT ?env - 1 / 10 \<le> 20 - at_time (last (?m # ?ms))"
    by (simp add: sample_env_def private_message_def)
  from coalescing[OF fresh keys st, of 20 21 ?text ?text False]
  obtain q where q: "message_queues st ''alice'' = Some q"
    and facts: "messages q = prefixed ?m # map in_content ?ms"
    "combined_message q = join [CHR 0x0A] (prefixed ?m # map in_content ?ms)"
    "queue_timers st ''alice'' = Some (timer_seq empty_handler + length ?ms)"
    and flush: "QUEUE_TIMEOUT ?env - 1 / 10 \<le> 20 - at_time (last (?m # ?ms)) \<longrightarrow>
      fst (flush_trigger ?env 20 ''alice'' st) = Some q \<and>
      fst (flush_trigger ?env 21 ''alice'' (snd (flush_trigger ?env 20 ''alice'' st))) = None \<and>
      process_message_queue ?env 20 ''alice'' st =
        (returned (flush_process ?env q), popped_store ''alice'' st,
         LockAcquire # QueuePop ''alice'' # snd (flush_process ?env q) @ [LockRelease]) \<and>
      process_message_queue ?env 21 ''alice'' (popped_store ''alice'' st) =
        (None, popped_store ''alice'' st, [LockAcquire, LockRelease])"
    and link: "\<not> WEBLENS_ENABLED ?env \<longrightarrow> fst (link_step ?env q) = Inr (combined_message q)"
    and search: "\<not> NETWORK_SEARCH_ENABLED ?env \<longrightarrow> fst (search_step ?env q ?text) = Inr ?text"
    and route: "fst (link_step ?env q) = Inr ?text \<and>
        \<not> check_time_reminder_and_search ?text (in_sender_name ?m) \<and>
        fst (search_step ?env q ?text) = Inr ?text \<and> is_voice_request ?env ?text = Inr False \<longrightarrow>
          starts_with (combined_message q) ?text \<and>
          dispatches (snd (flush_process ?env q)) =
            [Dispatch (if False then Voice
                       else if is_random_image_request ?env ?text then RandomImage else Text)
               ?text (in_chat_id ?m) (in_sender_name ?m) (in_username ?m) (in_is_group ?m)]"
    by blast
  have shape: "prefixed ?m # map in_content ?ms =
      [''[2025-01-01 12:00:00]'' @ [CHR 0x0A] @ ''one'', ''two'', ''three'']"
    by (simp add: prefixed_def private_message_def)
  have joined: "combined_message q = ?text"
    unfolding facts(2) by (simp add: prefixed_def private_message_def)
  have off: "\<not> WEBLENS_ENABLED ?env" "\<not> NETWORK_SEARCH_ENABLED ?env"
    by (simp_all add: sample_env_def)
  have cls: "\<not> check_time_reminder_and_search ?text (in_sender_name ?m)"
    "is_voice_request ?env ?text = Inr False" "\<not> is_random_image_request ?env ?text"
    by (simp_all add: flush_defs sample_defs)
  from route link search off cls joined
  have disp: "dispatches (snd (flush_process ?env q)) =
      [Dispatch Text ?text ''alice'' ''alice'' ''alice'' False]"
    by (simp add: private_message_def)
  have meta: "q = \<lparr>messages = [''[2025-01-01 12:00:00]'' @ [CHR 0x0A] @ ''one'', ''two'', ''three''],
      chat_id = ''alice'', sender_name = ''alice'', username = ''alice'', is_group = False,
      is_image_recognition = False, last_update = 7, has_link = False, urls = []\<rparr>"
    using q st by (auto simp: enqueue_defs sample_defs Let_def)
  have processed: "flush_process ?env q =
      (Inr (Some ''ok''),
       [IsVoiceRequest ?text, IsRandomImageRequest ?text,
        Dispatch Text ?text ''alice'' ''alice'' ''alice'' False])"
    unfolding meta by (simp add: flush_defs sample_defs)
  from flush due processed
  have run: "fst (flush_trigger ?env 20 ''alice'' st) = Some q"
    "fst (flush_trigger ?env 21 ''alice'' (snd (flush_trigger ?env 20 ''alice'' st))) = None"
    "process_message_queue ?env 20 ''alice'' st =
        (Some ''ok'', popped_store ''alice'' st,
         [LockAcquire, QueuePop ''alice'', IsVoiceRequest ?text, IsRandomImageRequest ?text,
          Dispatch Text ?text ''alice'' ''alice'' ''alice'' False, LockRelease])"
    "process_message_queue ?env 21 ''alice'' (popped_store ''alice'' st) =
        (None, popped_store ''alice'' st, [LockAcquire, LockRelease])"
    by (simp_all add: returned_def)
  have timer: "queue_timers st ''alice'' = Some 2"
    using facts(3) by (simp add: empty_handler_def)
  let ?m2 = "private_message ''bob'' ''see'' 0"
  let ?ms2 = "[private_message ''bob'' search_marker 1]"
  let ?text2 = "''[2025-01-01 12:00:00]'' @ [CHR 0x0A] @ ''see'' @ [CHR 0x0A] @ search_marker"
  have keys2: "\<forall>x\<in>set (?m2 # ?ms2). key_of x = ''bob''"
    by (simp add: key_of_def private_message_def get_queue_key_def)
  obtain st2 where st2: "enqueue_all ?env (?m2 # ?ms2) empty_handler = Inr st2"
    by (simp add: enqueue_defs sample_defs Let_def)
  have fresh2: "message_queues empty_handler ''bob'' = None"
    by (simp add: empty_handler_def)
  from coalescing[OF fresh2 keys2 st2, of 20 21 ?text2]
  obtain q2 where q2: "message_queues st2 ''bob'' = Some q2"
    and joined2: "combined_message q2 = join [CHR 0x0A] (prefixed ?m2 # map in_content ?ms2)"
    and link2: "\<not> WEBLENS_ENABLED ?env \<longrightarrow> fst (link_step ?env q2) = Inr (combined_message q2)"
    and marker2: "fst (link_step ?env q2) = Inr ?text2 \<and>
        check_time_reminder_and_search ?text2 (in_sender_name ?m2) \<longrightarrow>
          dispatches (snd (flush_process ?env q2)) =
            [Dispatch Text ?text2 (in_chat_id ?m2) (in_sender_name ?m2) (in_username ?m2)
               (in_is_group ?m2)]"
    by blast
  have text2: "combined_message q2 = ?text2"
    unfolding joined2 by (simp add: prefixed_def private_message_def)
  have chk2: "check_time_reminder_and_search ?text2 (in_sender_name ?m2)"
    by (simp add: flush_defs sample_defs)
  from marker2 link2 off text2 chk2
  have disp2: "dispatches (snd (flush_process ?env q2)) =
      [Dispatch Text ?text2 ''bob'' ''bob'' ''bob'' False]"
    by (simp add: private_message_def)
  show ?thesis
    unfolding st st2 using keys q facts(1) joined shape timer live run disp q2 disp2 by simp
qed

text \<open>
  C8, as the code has it. Link detection runs only when \<^verbatim>\<open>WEBLENS_ENABLED\<close> is set.
  With it set, and starting with no queue for the key, enqueuing a message in which no
  link is detected and then a message in which the first detected link is \<open>u\<close> gives a
  queue with \<^verbatim>\<open>has_link\<close> true and \<^verbatim>\<open>urls = [u]\<close>. In general an append sets
  \<^verbatim>\<open>has_link\<close> to the disjunction of the old flag and the flag of this call, and adds
  the first link detected in the appended message, if any, at the end of \<^verbatim>\<open>urls\<close>.
\<close>

theorem link_accumulation:
  "(WEBLENS_ENABLED env \<and> detect_urls env (in_content a) = Inr [] \<and>
    detect_urls env (in_content b) = Inr (u # others) \<and>
    key_of a = k \<and> key_of b = k \<and> message_queues st k = None \<longrightarrow>
      (\<exists>q. queue_after env [a, b] st k = Some q \<and> has_link q \<and> urls q = [u])) \<and>
   (message_queues st (key_of m) = Some q0 \<and> enqueue env m st = Inr st' \<longrightarrow>
      (\<exists>found q'. detect_links env (in_content m) = Inr found \<and>
         message_queues st' (key_of m) = Some q' \<and>
         has_link q' = (found \<noteq> [] \<or> has_link q0) \<and>
         urls q' = urls q0 @ take 1 found))"
proof -
  have first: "\<exists>q. queue_after env [a, b] st k = Some q \<and> has_link q \<and> urls q = [u]"
    if w: "WEBLENS_ENABLED env" and da: "detect_urls env (in_content a) = Inr []"
      and db: "detect_urls env (in_content b) = Inr (u # others)"
      and ka: "key_of a = k" and kb: "key_of b = k" and fresh: "message_queues st k = None"
  proof -
    from w da have la: "detect_links env (in_content a) = Inr []"
      by (simp add: detect_links_def)
    from w db have lb: "detect_links env (in_content b) = Inr (u # others)"
      by (simp add: detect_links_def)
    from enqueue_succeeds[OF la] obtain st1 where e1: "enqueue env a st = Inr st1" ..
    from enqueue_succeeds[OF lb] obtain st2 where e2: "enqueue env b st1 = Inr st2" ..
    from enqueue_new[OF _ e1] fresh ka la
    obtain q1 where q1: "message_queues st1 k = Some q1" "\<not> has_link q1" "urls q1 = []"
      by auto
    from enqueue_existing[OF _ e2, of q1] q1(1) kb lb
    obtain q2 where q2: "message_queues st2 k = Some q2"
      "has_link q2 = (u # others \<noteq> [] \<or> has_link q1)" "urls q2 = urls q1 @ take 1 (u # others)"
      by auto
    from e1 e2 q1 q2 show ?thesis
      by (simp add: queue_after_def)
  qed
  have append: "\<exists>found q'. detect_links env (in_content m) = Inr found \<and>
         message_queues st' (key_of m) = Some q' \<and>
         has_link q' = (found \<noteq> [] \<or> has_link q0) \<and>
         urls q' = urls q0 @ take 1 found"
    if "message_queues st (key_of m) = Some q0" "enqueue env m st = Inr st'"
    using enqueue_existing[OF that] by auto
  from first append show ?thesis by blast
qed

theorem link_accumulation_witness:
  "WEBLENS_ENABLED (sample_env True) \<and>
   detect_urls (sample_env True) (in_content (private_message ''alice'' ''hi'' 0)) = Inr [] \<and>
   detect_urls (sample_env True) (in_content (private_message ''alice'' ''see http://u'' 1)) =
     Inr [''http://u''] \<and>
   map_option has_link
     (queue_after (sample_env True)
        [private_message ''alice'' ''hi'' 0, private_message ''alice'' ''see http://u'' 1]
        empty_handler ''alice'') = Some True \<and>
   map_option urls
     (queue_after (sample_env True)
        [private_message ''alice'' ''hi'' 0, private_message ''alice'' ''see http://u'' 1]
        empty_handler ''alice'') = Some [''http://u'']"
  using link_accumulation[of "sample_env True" "private_message ''alice'' ''hi'' 0"
      "private_message ''alice'' ''see http://u'' 1" "''http://u''" "[]" "''alice''"
      empty_handler]
  by (auto simp: sample_defs key_of_def get_queue_key_def)

text \<open>
  C8 as stated fails when link detection is switched off: the second message contains the
  link, and the queue has \<^verbatim>\<open>has_link\<close> false and no URL.
\<close>

theorem link_accumulation_counterexample:
  "detect_urls (sample_env False) ''see http://u'' = Inr [''http://u''] \<and>
   map_option has_link
     (queue_after (sample_env False)
        [private_message ''alice'' ''hi'' 0, private_message ''alice'' ''see http://u'' 1]
        empty_handler ''alice'') = Some False \<and>
   map_option urls
     (queue_after (sample_env False)
        [private_message ''alice'' ''hi'' 0, private_message ''alice'' ''see http://u'' 1]
        empty_handler ''alice'') = Some []"
  by (simp add: enqueue_defs sample_defs Let_def)

text \<open>
  C10. The key is not injective. A group conversation \<open>c\<close> with sender \<open>s\<close> has the key
  of the private conversation whose chat id is \<open>c\<close>, an underscore and \<open>s\<close>; the group
  pairs \<^verbatim>\<open>("a_b", "c")\<close> and \<^verbatim>\<open>("a", "b_c")\<close> have one key as well. Two messages whose
  keys collide land in one queue entry, and the timer of the first is cancelled and
  replaced by the timer of the second.
\<close>

theorem queue_key_not_injective:
  "get_queue_key c s True = get_queue_key (c @ ''_'' @ s) s' False \<and>
   get_queue_key ''a_b'' ''c'' True = get_queue_key ''a'' ''b_c'' True \<and>
   \<not> inj (\<lambda>(c, s, g). get_queue_key c s g) \<and>
   (key_of m1 = key_of m2 \<and> message_queues st (key_of m1) = None \<and>
    enqueue_all env [m1, m2] st = Inr st' \<longrightarrow>
      map_option messages (message_queues st' (key_of m1)) =
        Some [prefixed m1, in_content m2] \<and>
      queue_timers st' (key_of m1) = Some (Suc (timer_seq st)) \<and>
      timer_seq st \<notin> live_timers st' \<and> Suc (timer_seq st) \<in> live_timers st')"
proof -
  have a: "get_queue_key c s True = get_queue_key (c @ ''_'' @ s) s' False"
    by (simp add: get_queue_key_def)
  have b: "get_queue_key ''a_b'' ''c'' True = get_queue_key ''a'' ''b_c'' True"
    by (simp add: get_queue_key_def)
  have c: "\<not> inj (\<lambda>(c, s, g). get_queue_key c s g)"
  proof
    assume "inj (\<lambda>(c, s, g). get_queue_key c s g)"
    from injD[OF this, of "(''a_b'', ''c'', True)" "(''a'', ''b_c'', True)"] b
    show False by simp
  qed
  have d: "map_option messages (message_queues st' (key_of m1)) =
        Some [prefixed m1, in_content m2] \<and>
      queue_timers st' (key_of m1) = Some (Suc (timer_seq st)) \<and>
      timer_seq st \<notin> live_timers st' \<and> Suc (timer_seq st) \<in> live_timers st'"
    if k: "key_of m1 = key_of m2" and fresh: "message_queues st (key_of m1) = None"
      and enq: "enqueue_all env [m1, m2] st = Inr st'"
  proof -
    from enq obtain st1 where e1: "enqueue env m1 st = Inr st1"
      and e2: "enqueue env m2 st1 = Inr st'"
      by (auto split: sum.splits)
    from enqueue_new[OF fresh e1]
    obtain q1 where q1: "message_queues st1 (key_of m1) = Some q1" "messages q1 = [prefixed m1]"
      by auto
    from enqueue_existing[OF _ e2, of q1] q1 k
    have msgs: "map_option messages (message_queues st' (key_of m1)) =
        Some [prefixed m1, in_content m2]"
      by auto
    from enqueue_timers[OF e1] enqueue_timers[OF e2] k
    have "queue_timers st' (key_of m1) = Some (Suc (timer_seq st)) \<and>
      timer_seq st \<notin> live_timers st' \<and> Suc (timer_seq st) \<in> live_timers st'"
      by auto
    with msgs show ?thesis by simp
  qed
  from a b c d show ?thesis by blast
qed

text \<open>
  A message of \<^verbatim>\<open>c\<close> in the group \<^verbatim>\<open>a_b\<close> and a message of \<^verbatim>\<open>b_c\<close> in the group
  \<^verbatim>\<open>a\<close> are buffered together under the key \<^verbatim>\<open>a_b_c\<close>, with one timer.
\<close>

theorem queue_key_not_injective_witness:
  "key_of (group_message ''a_b'' ''c'' ''one'' 0) = key_of (group_message ''a'' ''b_c'' ''two'' 1) \<and>
   (in_chat_id (group_message ''a_b'' ''c'' ''one'' 0),
    in_sender_name (group_message ''a_b'' ''c'' ''one'' 0)) \<noteq>
   (in_chat_id (group_message ''a'' ''b_c'' ''two'' 1),
    in_sender_name (group_message ''a'' ''b_c'' ''two'' 1)) \<and>
   message_queues empty_handler (key_of (group_message ''a_b'' ''c'' ''one'' 0)) = None \<and>
   (case enqueue_all (sample_env False)
           [group_message ''a_b'' ''c'' ''one'' 0, group_message ''a'' ''b_c'' ''two'' 1]
           empty_handler of
      Inl e \<Rightarrow> False
    | Inr st \<Rightarrow>
        map_option messages (message_queues st ''a_b_c'') =
          Some [''[2025-01-01 12:00:00]'' @ [CHR 0x0A] @ ''one'', ''two''] \<and>
        dom (message_queues st) = {''a_b_c''} \<and>
        queue_timers st ''a_b_c'' = Some 1 \<and>
        live_timers st = {1})"
proof -
  let ?m1 = "group_message ''a_b'' ''c'' ''one'' 0"
  let ?m2 = "group_message ''a'' ''b_c'' ''two'' 1"
  have k: "key_of ?m1 = key_of ?m2" and k1: "key_of ?m1 = ''a_b_c''"
    by (simp_all add: key_of_def group_message_def get_queue_key_def)
  have fresh: "message_queues empty_handler (key_of ?m1) = None"
    by (simp add: empty_handler_def)
  obtain st where st: "enqueue_all (sample_env False) [?m1, ?m2] empty_handler = Inr st"
    and rest: "dom (message_queues st) = {''a_b_c''}" "live_timers st = {1}"
    by (simp add: enqueue_defs sample_defs Let_def)
  from queue_key_not_injective[of _ _ _ ?m1 ?m2 empty_handler "sample_env False" st] k fresh st
  have "map_option messages (message_queues st (key_of ?m1)) =
          Some [prefixed ?m1, in_content ?m2] \<and>
        queue_timers st (key_of ?m1) = Some (Suc (timer_seq empty_handler))"
    by blast
  then have "map_option messages (message_queues st ''a_b_c'') =
          Some [prefixed ?m1, in_content ?m2] \<and>
        queue_timers st ''a_b_c'' = Some (Suc (timer_seq empty_handler))"
    unfolding k1 .
  then have "map_option messages (message_queues st ''a_b_c'') =
          Some [''[2025-01-01 12:00:00]'' @ [CHR 0x0A] @ ''one'', ''two''] \<and>
        queue_timers st ''a_b_c'' = Some 1"
    by (simp add: prefixed_def group_message_def empty_handler_def)
  with k fresh rest show ?thesis
    unfolding st by (simp add: group_message_def)
qed

section \<open>Claims about the flush\<close>

text \<open>
  C2, as the code has it. \<^verbatim>\<open>_process_message_queue\<close> holds \<^verbatim>\<open>queue_lock\<close> from its
  first statement until it returns: the trace of every call is the acquire, a body without
  lock events, and the release. When an entry is popped, the body is the pop followed by
  everything the processing does, so link extraction, classification and the call of the
  responder all happen under the lock, and nothing happens outside it.
\<close>

theorem lock_held_for_whole_flush:
  "\<exists>body. snd (snd (process_message_queue env now key st)) = LockAcquire # body @ [LockRelease] \<and>
     LockAcquire \<notin> set body \<and> LockRelease \<notin> set body \<and>
     (case fst (flush_trigger env now key st) of
        None \<Rightarrow> body = []
      | Some queue \<Rightarrow> body = QueuePop key # snd (flush_process env queue)) \<and>
     events_outside_lock False (snd (snd (process_message_queue env now key st))) = [] \<and>
     external_under_lock False (snd (snd (process_message_queue env now key st))) =
       (\<exists>ev\<in>set body. is_external ev)"
proof -
  from process_trace_shape[of env now key st] obtain body where
    tr: "snd (snd (process_message_queue env now key st)) = with_queue_lock body"
    and nl: "\<forall>ev\<in>set body. ev \<noteq> LockAcquire \<and> ev \<noteq> LockRelease"
    and sh: "(case fst (flush_trigger env now key st) of
        None \<Rightarrow> body = []
      | Some queue \<Rightarrow> body = QueuePop key # snd (flush_process env queue))"
    by blast
  have "events_outside_lock False (with_queue_lock body) = []"
    using outside_lock_held[OF nl, of "[LockRelease]"] by (simp add: with_queue_lock_def)
  moreover have "external_under_lock False (with_queue_lock body) = (\<exists>ev\<in>set body. is_external ev)"
    using under_lock_held[OF nl, of "[LockRelease]"] by (simp add: with_queue_lock_def)
  ultimately show ?thesis
    using tr nl sh by (intro exI[of _ body]) (auto simp: with_queue_lock_def)
qed

theorem lock_held_for_whole_flush_witness:
  "fst (flush_trigger (sample_env True) 9 ''alice''
      (store_after (sample_env True) [private_message ''alice'' ''see http://u'' 0]
         empty_handler)) \<noteq> None \<and>
   events_outside_lock False
     (snd (snd (process_message_queue (sample_env True) 9 ''alice''
        (store_after (sample_env True) [private_message ''alice'' ''see http://u'' 0]
           empty_handler)))) = [] \<and>
   hd (snd (snd (process_message_queue (sample_env True) 9 ''alice''
        (store_after (sample_env True) [private_message ''alice'' ''see http://u'' 0]
           empty_handler)))) = LockAcquire \<and>
   last (snd (snd (process_message_queue (sample_env True) 9 ''alice''
        (store_after (sample_env True) [private_message ''alice'' ''see http://u'' 0]
           empty_handler)))) = LockRelease \<and>
   QueuePop ''alice'' \<in> set (snd (snd (process_message_queue (sample_env True) 9 ''alice''
        (store_after (sample_env True) [private_message ''alice'' ''see http://u'' 0]
           empty_handler))))"
proof -
  let ?st = "store_after (sample_env True) [private_message ''alice'' ''see http://u'' 0]
           empty_handler"
  have pop: "fst (flush_trigger (sample_env True) 9 ''alice'' ?st) \<noteq> None"
    by (simp add: flush_defs enqueue_defs sample_defs Let_def)
  from lock_held_for_whole_flush[of "sample_env True" 9 "''alice''" ?st] pop
  show ?thesis by auto
qed

text \<open>
  C2 as stated fails: in the flush of one message with a link, the web extraction, the
  voice classifier and the text responder are called between the acquire and the release.
\<close>

theorem lock_released_before_io_counterexample:
  "snd (snd (process_message_queue (sample_env True) 9 ''alice''
      (store_after (sample_env True) [private_message ''alice'' ''see http://u'' 0]
         empty_handler))) =
     [LockAcquire,
      QueuePop ''alice'',
      ExtractWebContent ''http://u'',
      IsVoiceRequest (''[2025-01-01 12:00:00]'' @ [CHR 0x0A] @ ''see http://u'' @
                        [CHR 0x0A, CHR 0x0A] @ ''page''),
      IsRandomImageRequest (''[2025-01-01 12:00:00]'' @ [CHR 0x0A] @ ''see http://u'' @
                        [CHR 0x0A, CHR 0x0A] @ ''page''),
      Dispatch Text (''[2025-01-01 12:00:00]'' @ [CHR 0x0A] @ ''see http://u'' @
                        [CHR 0x0A, CHR 0x0A] @ ''page'') ''alice'' ''alice'' ''alice'' False,
      LockRelease] \<and>
   external_under_lock False
     (snd (snd (process_message_queue (sample_env True) 9 ''alice''
        (store_after (sample_env True) [private_message ''alice'' ''see http://u'' 0]
           empty_handler))))"
  by (simp add: flush_defs enqueue_defs sample_defs Let_def)




section \<open>Properties of the idle scheduler\<close>

lemma time_le_total: "time_le a b \<or> time_le b a"
  by (auto simp: time_le_def)

lemma time_lt_iff: "time_lt e s \<longleftrightarrow> \<not> time_le s e"
  using time_le_total[of s e] by (auto simp: time_lt_def)

lemmas parse_defs = strptime_HM_def parse_H_def parse_M_def is_digit_def digit_value_def

lemma start_countdown_armed:
  "countdown_timer (start_countdown cfg rd a) = Some (countdown_seq a) \<and>
   countdown_seq a \<in> live_countdowns (start_countdown cfg rd a) \<and>
   is_countdown_running (start_countdown cfg rd a) \<and>
   unanswered_count (start_countdown cfg rd a) = unanswered_count a \<and>
   countdown_end_time (start_countdown cfg rd a) =
     Some (countdown_now rd + get_random_countdown_time cfg (countdown_draw rd))"
  by (simp add: start_countdown_def Let_def)

lemma add_to_queue_counts:
  assumes "add_to_queue env now_str now cid content sname uname False st = Inr st'"
  shows "queued_count st' cid = queued_count st cid + 1 \<and>
         (\<forall>k. k \<noteq> cid \<longrightarrow> message_queues st' k = message_queues st k)"
  using assms
  by (auto simp: add_to_queue_def add_to_message_queue_def get_queue_key_def queued_count_def
      Let_def split: sum.splits option.splits)

lemma add_to_queue_entry:
  assumes "add_to_queue env now_str now cid content sname uname False st = Inr st'"
  shows "\<exists>q. message_queues st' cid = Some q \<and>
           last (messages q) =
             (if message_queues st cid = None
              then ''['' @ now_str @ '']'' @ [CHR 0x0A] @ content else content) \<and>
           (message_queues st cid = None \<longrightarrow>
              chat_id q = cid \<and> sender_name q = sname \<and> username q = uname \<and> \<not> is_group q)"
  using assms
  by (auto simp: add_to_queue_def add_to_message_queue_def get_queue_key_def
      Let_def split: sum.splits option.splits)

lemma handle_wxauto_message_auto:
  "auto_sender (handle_wxauto_message cfg env prepare rd msg chatName grp b) =
     start_countdown cfg rd (auto_sender b)"
  by (simp add: handle_wxauto_message_def Let_def split: sum.splits prod.splits option.splits)

lemma handle_wxauto_message_keeps_count:
  "unanswered_count (auto_sender (handle_wxauto_message cfg env prepare rd msg chatName grp b)) =
     unanswered_count (auto_sender b)"
  by (simp add: handle_wxauto_message_auto start_countdown_def Let_def)

lemmas auto_defs =
  auto_send_message_def start_countdown_def get_random_countdown_time_def py_int_def
  is_quiet_time_def time_le_def reply_content_def handle_wxauto_message_def
  handle_user_message_def update_last_chat_time_def

section \<open>Claims about the idle scheduler\<close>

text \<open>
  C5. \<^verbatim>\<open>is_quiet_time\<close> follows the configured window. When both strings parse and the
  start is not after the end, it holds exactly when the current time lies between them,
  bounds included. When the start is after the end (a window over midnight), it holds
  exactly when the current time is at or after the start or at or before the end. When a
  string does not parse, it is false.
\<close>

theorem quiet_hours_policy:
  "(strptime_HM (quiet_time_start cfg) = Some s \<and> strptime_HM (quiet_time_end cfg) = Some e \<and>
      time_le s e \<longrightarrow>
        is_quiet_time cfg now = (time_le s now \<and> time_le now e)) \<and>
   (strptime_HM (quiet_time_start cfg) = Some s \<and> strptime_HM (quiet_time_end cfg) = Some e \<and>
      time_lt e s \<longrightarrow>
        is_quiet_time cfg now = (time_le s now \<or> time_le now e)) \<and>
   (strptime_HM (quiet_time_start cfg) = None \<or> strptime_HM (quiet_time_end cfg) = None \<longrightarrow>
        \<not> is_quiet_time cfg now)"
  by (auto simp: is_quiet_time_def time_lt_iff split: option.splits)

text \<open>
  The window 22:00 to 08:00 suppresses at 23:30 and not at 12:00; a start of \<^verbatim>\<open>25:00\<close>
  does not parse and nothing is suppressed; the window 09:00 to 17:00 suppresses at 12:00.
\<close>

theorem quiet_hours_policy_witness:
  "strptime_HM (quiet_time_start sample_cfg) =
      Some \<lparr>hour = 22, minute = 0, second = 0, microsecond = 0\<rparr> \<and>
   strptime_HM (quiet_time_end sample_cfg) =
      Some \<lparr>hour = 8, minute = 0, second = 0, microsecond = 0\<rparr> \<and>
   time_lt \<lparr>hour = 8, minute = 0, second = 0, microsecond = 0\<rparr>
      \<lparr>hour = 22, minute = 0, second = 0, microsecond = 0\<rparr> \<and>
   is_quiet_time sample_cfg (wall_time (readings_at 23 30)) \<and>
   \<not> is_quiet_time sample_cfg (wall_time (readings_at 12 0)) \<and>
   strptime_HM (quiet_time_start (sample_cfg\<lparr>quiet_time_start := ''25:00''\<rparr>)) = None \<and>
   \<not> is_quiet_time (sample_cfg\<lparr>quiet_time_start := ''25:00''\<rparr>) (wall_time (readings_at 23 30)) \<and>
   time_le \<lparr>hour = 9, minute = 0, second = 0, microsecond = 0\<rparr>
      \<lparr>hour = 17, minute = 0, second = 0, microsecond = 0\<rparr> \<and>
   is_quiet_time (sample_cfg\<lparr>quiet_time_start := ''09:00'', quiet_time_end := ''17:00''\<rparr>)
      (wall_time (readings_at 12 0))"
  using
    quiet_hours_policy[of sample_cfg "\<lparr>hour = 22, minute = 0, second = 0, microsecond = 0\<rparr>"
      "\<lparr>hour = 8, minute = 0, second = 0, microsecond = 0\<rparr>" "wall_time (readings_at 23 30)"]
    quiet_hours_policy[of sample_cfg "\<lparr>hour = 22, minute = 0, second = 0, microsecond = 0\<rparr>"
      "\<lparr>hour = 8, minute = 0, second = 0, microsecond = 0\<rparr>" "wall_time (readings_at 12 0)"]
    quiet_hours_policy[of "sample_cfg\<lparr>quiet_time_start := ''25:00''\<rparr>" _ _
      "wall_time (readings_at 23 30)"]
    quiet_hours_policy[of "sample_cfg\<lparr>quiet_time_start := ''09:00'', quiet_time_end := ''17:00''\<rparr>"
      "\<lparr>hour = 9, minute = 0, second = 0, microsecond = 0\<rparr>"
      "\<lparr>hour = 17, minute = 0, second = 0, microsecond = 0\<rparr>" "wall_time (readings_at 12 0)"]
  by (simp add: sample_cfg_def readings_at_def parse_defs time_le_def time_lt_def)

text \<open>
  C6. Every run of \<^verbatim>\<open>auto_send_message\<close> ends with \<^verbatim>\<open>start_countdown\<close>: the scheduler
  state it leaves is the result of \<^verbatim>\<open>start_countdown\<close>, with a new live timer and the
  running flag set. During quiet hours and with an empty target list nothing is enqueued
  and \<^verbatim>\<open>unanswered_count\<close> keeps its value. Otherwise \<^verbatim>\<open>add_to_queue\<close> is called once, for
  the member of the target list at the drawn index: when it succeeds, the queue of that
  target holds one message more and no other queue changes; when it raises, the store is
  unchanged; the countdown is armed in both cases.
\<close>

theorem fire_always_rearms:
  "(\<exists>a. auto_sender (auto_send_message cfg env rd b) = start_countdown cfg rd a) \<and>
   countdown_timer (auto_sender (auto_send_message cfg env rd b)) =
     Some (countdown_seq (auto_sender b)) \<and>
   countdown_seq (auto_sender b) \<in> live_countdowns (auto_sender (auto_send_message cfg env rd b)) \<and>
   is_countdown_running (auto_sender (auto_send_message cfg env rd b)) \<and>
   (is_quiet_time cfg (wall_time rd) \<or> listen_list cfg = [] \<longrightarrow>
      auto_send_message cfg env rd b =
        b\<lparr>auto_sender := start_countdown cfg rd (auto_sender b)\<rparr> \<and>
      message_handler (auto_send_message cfg env rd b) = message_handler b \<and>
      unanswered_count (auto_sender (auto_send_message cfg env rd b)) =
        unanswered_count (auto_sender b)) \<and>
   (\<not> is_quiet_time cfg (wall_time rd) \<and> choice_index rd < length (listen_list cfg) \<longrightarrow>
      listen_list cfg ! choice_index rd \<in> set (listen_list cfg) \<and>
      (case add_to_queue env (enqueue_now_str rd) (enqueue_now rd)
              (listen_list cfg ! choice_index rd) (reply_content cfg) ''System'' ''System'' False
              (message_handler b) of
         Inl e \<Rightarrow> message_handler (auto_send_message cfg env rd b) = message_handler b
       | Inr queued \<Rightarrow>
           message_handler (auto_send_message cfg env rd b) = queued \<and>
           queued_count queued (listen_list cfg ! choice_index rd) =
             queued_count (message_handler b) (listen_list cfg ! choice_index rd) + 1 \<and>
           (\<forall>k. k \<noteq> listen_list cfg ! choice_index rd \<longrightarrow>
              message_queues queued k = message_queues (message_handler b) k)))"
proof -
  have "\<exists>a. auto_sender (auto_send_message cfg env rd b) = start_countdown cfg rd a \<and>
      countdown_seq a = countdown_seq (auto_sender b)"
    by (auto simp: auto_send_message_def Let_def split: sum.splits)
  then obtain a where a: "auto_sender (auto_send_message cfg env rd b) = start_countdown cfg rd a"
    "countdown_seq a = countdown_seq (auto_sender b)" by blast
  have armed: "countdown_timer (auto_sender (auto_send_message cfg env rd b)) =
     Some (countdown_seq (auto_sender b)) \<and>
   countdown_seq (auto_sender b) \<in> live_countdowns (auto_sender (auto_send_message cfg env rd b)) \<and>
   is_countdown_running (auto_sender (auto_send_message cfg env rd b))"
    using start_countdown_armed[of cfg rd a] a by simp
  have idle: "auto_send_message cfg env rd b =
        b\<lparr>auto_sender := start_countdown cfg rd (auto_sender b)\<rparr> \<and>
      message_handler (auto_send_message cfg env rd b) = message_handler b \<and>
      unanswered_count (auto_sender (auto_send_message cfg env rd b)) =
        unanswered_count (auto_sender b)"
    if "is_quiet_time cfg (wall_time rd) \<or> listen_list cfg = []"
    using that start_countdown_armed[of cfg rd "auto_sender b"]
    by (auto simp: auto_send_message_def)
  have send: "listen_list cfg ! choice_index rd \<in> set (listen_list cfg) \<and>
      (case add_to_queue env (enqueue_now_str rd) (enqueue_now rd)
              (listen_list cfg ! choice_index rd) (reply_content cfg) ''System'' ''System'' False
              (message_handler b) of
         Inl e \<Rightarrow> message_handler (auto_send_message cfg env rd b) = message_handler b
       | Inr queued \<Rightarrow>
           message_handler (auto_send_message cfg env rd b) = queued \<and>
           queued_count queued (listen_list cfg ! choice_index rd) =
             queued_count (message_handler b) (listen_list cfg ! choice_index rd) + 1 \<and>
           (\<forall>k. k \<noteq> listen_list cfg ! choice_index rd \<longrightarrow>
              message_queues queued k = message_queues (message_handler b) k))"
    if q: "\<not> is_quiet_time cfg (wall_time rd)" and i: "choice_index rd < length (listen_list cfg)"
  proof -
    from i have ne: "listen_list cfg \<noteq> []" by auto
    show ?thesis
    proof (cases "add_to_queue env (enqueue_now_str rd) (enqueue_now rd)
              (listen_list cfg ! choice_index rd) (reply_content cfg) ''System'' ''System'' False
              (message_handler b)")
      case (Inl e)
      with q ne i show ?thesis by (simp add: auto_send_message_def Let_def)
    next
      case (Inr queued)
      from add_to_queue_counts[OF Inr] Inr q ne i show ?thesis
        by (simp add: auto_send_message_def Let_def)
    qed
  qed
  from a(1) armed idle send show ?thesis by blast
qed

text \<open>
  With the quiet window 22:00 to 08:00 and the targets \<^verbatim>\<open>alice\<close> and \<^verbatim>\<open>bob\<close>: at 23:30
  nothing is enqueued and the countdown is armed; at 12:00 one message is enqueued for
  \<^verbatim>\<open>bob\<close>, the target at the drawn index 1, and the countdown is armed; when the link
  detector raises, the store stays empty and the countdown is armed.
\<close>

theorem fire_always_rearms_witness:
  "is_quiet_time sample_cfg (wall_time (readings_at 23 30)) \<and>
   auto_send_message sample_cfg (sample_env False) (readings_at 23 30) fresh_bot =
     fresh_bot\<lparr>auto_sender := start_countdown sample_cfg (readings_at 23 30) initial_auto\<rparr> \<and>
   countdown_timer
     (auto_sender (auto_send_message sample_cfg (sample_env False) (readings_at 23 30) fresh_bot)) =
     Some 0 \<and>
   \<not> is_quiet_time sample_cfg (wall_time (readings_at 12 0)) \<and>
   choice_index (readings_at 12 0) < length (listen_list sample_cfg) \<and>
   queued_count
     (message_handler (auto_send_message sample_cfg (sample_env False) (readings_at 12 0) fresh_bot))
     ''bob'' = 1 \<and>
   queued_count
     (message_handler (auto_send_message sample_cfg (sample_env False) (readings_at 12 0) fresh_bot))
     ''alice'' = 0 \<and>
   countdown_timer
     (auto_sender (auto_send_message sample_cfg (sample_env False) (readings_at 12 0) fresh_bot)) =
     Some 0 \<and>
   countdown_end_time
     (auto_sender (auto_send_message sample_cfg (sample_env False) (readings_at 12 0) fresh_bot)) =
     Some 7200 \<and>
   message_handler (auto_send_message sample_cfg failing_env (readings_at 12 0) fresh_bot) =
     empty_handler \<and>
   is_countdown_running
     (auto_sender (auto_send_message sample_cfg failing_env (readings_at 12 0) fresh_bot))"
  using
    fire_always_rearms[of sample_cfg "sample_env False" "readings_at 23 30" fresh_bot]
    fire_always_rearms[of sample_cfg "sample_env False" "readings_at 12 0" fresh_bot]
    fire_always_rearms[of sample_cfg failing_env "readings_at 12 0" fresh_bot]
  by (simp add: auto_defs parse_defs enqueue_defs sample_defs Let_def)

text \<open>
  C7. Two expiries at noon, starting from a fresh scheduler: \<^verbatim>\<open>unanswered_count\<close> is
  incremented to 2, and both messages are enqueued for the chosen target with sender name
  and username \<^verbatim>\<open>System\<close> and the group flag off. The text of the first and of the second
  attempt is the same: the template, a space and the fixed instruction of line 85, which
  names no attempt number.
\<close>

theorem outreach_message_omits_attempt_number:
  "unanswered_count
     (auto_sender (fire_all sample_cfg (sample_env False) [readings_at 12 0, readings_at 13 0]
        fresh_bot)) = 2 \<and>
   map_option messages
     (message_queues
        (message_handler (fire_all sample_cfg (sample_env False)
           [readings_at 12 0, readings_at 13 0] fresh_bot)) ''bob'') =
     Some [''[2025-01-01 12:00:00]'' @ [CHR 0x0A] @ ''hello '' @ standing_instruction,
           ''hello '' @ standing_instruction] \<and>
   map_option sender_name
     (message_queues
        (message_handler (fire_all sample_cfg (sample_env False)
           [readings_at 12 0, readings_at 13 0] fresh_bot)) ''bob'') = Some ''System'' \<and>
   map_option username
     (message_queues
        (message_handler (fire_all sample_cfg (sample_env False)
           [readings_at 12 0, readings_at 13 0] fresh_bot)) ''bob'') = Some ''System'' \<and>
   map_option is_group
     (message_queues
        (message_handler (fire_all sample_cfg (sample_env False)
           [readings_at 12 0, readings_at 13 0] fresh_bot)) ''bob'') = Some False \<and>
   \<not> contains ''1'' (reply_content sample_cfg) \<and>
   \<not> contains ''2'' (reply_content sample_cfg)"
  by (simp add: auto_defs parse_defs enqueue_defs sample_defs Let_def standing_instruction_def)

text \<open>
  C1. Three expiries at noon bring \<^verbatim>\<open>unanswered_count\<close> to 3. A message that then
  arrives through \<^verbatim>\<open>handle_wxauto_message\<close> is queued and restarts the countdown, and
  \<^verbatim>\<open>unanswered_count\<close> is still 3: the arrival path calls \<^verbatim>\<open>start_countdown\<close> and not
  \<^verbatim>\<open>update_last_chat_time\<close>, the only code that sets the counter to 0.
\<close>

theorem inbound_message_keeps_unanswered_count:
  "unanswered_count
     (auto_sender (fire_all sample_cfg (sample_env False)
        [readings_at 12 0, readings_at 13 0, readings_at 14 0] fresh_bot)) = 3 \<and>
   unanswered_count
     (auto_sender
        (handle_wxauto_message sample_cfg (sample_env False) plain_prepare (readings_at 15 0)
           \<lparr>sender = ''alice'', msg_content = Some ''hi''\<rparr> ''alice'' False
           (fire_all sample_cfg (sample_env False)
              [readings_at 12 0, readings_at 13 0, readings_at 14 0] fresh_bot))) = 3 \<and>
   countdown_timer
     (auto_sender
        (handle_wxauto_message sample_cfg (sample_env False) plain_prepare (readings_at 15 0)
           \<lparr>sender = ''alice'', msg_content = Some ''hi''\<rparr> ''alice'' False
           (fire_all sample_cfg (sample_env False)
              [readings_at 12 0, readings_at 13 0, readings_at 14 0] fresh_bot))) = Some 3 \<and>
   queued_count
     (message_handler
        (handle_wxauto_message sample_cfg (sample_env False) plain_prepare (readings_at 15 0)
           \<lparr>sender = ''alice'', msg_content = Some ''hi''\<rparr> ''alice'' False
           (fire_all sample_cfg (sample_env False)
              [readings_at 12 0, readings_at 13 0, readings_at 14 0] fresh_bot))) ''alice'' = 1 \<and>
   unanswered_count
     (update_last_chat_time 0
        (auto_sender (fire_all sample_cfg (sample_env False)
           [readings_at 12 0, readings_at 13 0, readings_at 14 0] fresh_bot))) = 0"
  by (simp add: auto_defs parse_defs enqueue_defs sample_defs Let_def)

end
